theory Spec2Isabelle
  imports Main "HOL-Library.AList" "HOL-Library.Sublist"
begin

section \<open>Strings\<close>

text \<open>
  A JavaScript string is modelled by the list of its UTF-16 code units, for the strings
  whose code units are all below 256 (Basic Latin and Latin-1 Supplement): a \<open>char\<close> is
  one such code unit, \<open>length\<close> is the source's \<open>.length\<close>.

  The class \<open>\s\<close> of a regular expression and \<open>String.prototype.trim\<close> use the same
  set of white space; below 256 it is TAB, LF, VT, FF, CR, SPACE and NO-BREAK SPACE.
\<close>

definition isSpace :: "char \<Rightarrow> bool" where
  "isSpace c = (c \<in> set [CHR 0x09, CHR 0x0A, CHR 0x0B, CHR 0x0C, CHR 0x0D, CHR 0x20, CHR 0xA0])"

text \<open>The class \<open>\d\<close>, and the class \<open>[a-z0-9]\<close>.\<close>

definition isDigit :: "char \<Rightarrow> bool" where
  "isDigit c = (c \<in> set ''0123456789'')"

definition isLowerAlnum :: "char \<Rightarrow> bool" where
  "isLowerAlnum c = (c \<in> set ''abcdefghijklmnopqrstuvwxyz0123456789'')"

text \<open>\<open>s.trim()\<close>: white space removed at both ends.\<close>

definition trim :: "string \<Rightarrow> string" where
  "trim s = rev (dropWhile isSpace (rev (dropWhile isSpace s)))"

text \<open>
  \<open>s.split(sep)\<close> for a separator of one character: the pieces between the separators,
  empty pieces kept; the empty string splits into one empty piece.
\<close>

fun split :: "char \<Rightarrow> string \<Rightarrow> string list" where
  "split sep [] = [[]]"
| "split sep (c # cs) =
     (if c = sep then [] # split sep cs
      else (case split sep cs of
              [] \<Rightarrow> [[c]]
            | piece # pieces \<Rightarrow> (c # piece) # pieces))"

text \<open>A template literal prints a non-negative integer in decimal, a negative one after a minus sign.\<close>

fun showNat :: "nat \<Rightarrow> string" where
  "showNat n =
     (if n < 10 then [''0123456789'' ! n]
      else showNat (n div 10) @ [''0123456789'' ! (n mod 10)])"

declare showNat.simps [simp del]

definition showInt :: "int \<Rightarrow> string" where
  "showInt i = (if i < 0 then CHR ''-'' # showNat (nat (- i)) else showNat (nat i))"

text \<open>
  The messages of the program contain the dash U+2014, a code unit above 255. No function
  of the program inspects a message; the dash is written as the text below.
\<close>

definition emDash :: string where
  "emDash = ''--''"

definition dquote :: string where
  "dquote = [CHR 0x22]"


section \<open>name-normalizer.ts\<close>

text \<open>
  \<open>name.normalize("NFD").replace(/[\u0300-\u036f]/g, "")\<close>. Below 256 the characters with
  a canonical decomposition are the accented letters of the table: each decomposes into
  its base letter and one combining mark of the range U+0300 to U+036F, which the
  replacement then removes. Every other character is left as it is.
\<close>

definition decompositions :: "(char \<times> string) list" where
  "decompositions =
    [(CHR ''A'', [CHR 0xC0, CHR 0xC1, CHR 0xC2, CHR 0xC3, CHR 0xC4, CHR 0xC5]),
     (CHR ''C'', [CHR 0xC7]),
     (CHR ''E'', [CHR 0xC8, CHR 0xC9, CHR 0xCA, CHR 0xCB]),
     (CHR ''I'', [CHR 0xCC, CHR 0xCD, CHR 0xCE, CHR 0xCF]),
     (CHR ''N'', [CHR 0xD1]),
     (CHR ''O'', [CHR 0xD2, CHR 0xD3, CHR 0xD4, CHR 0xD5, CHR 0xD6]),
     (CHR ''U'', [CHR 0xD9, CHR 0xDA, CHR 0xDB, CHR 0xDC]),
     (CHR ''Y'', [CHR 0xDD]),
     (CHR ''a'', [CHR 0xE0, CHR 0xE1, CHR 0xE2, CHR 0xE3, CHR 0xE4, CHR 0xE5]),
     (CHR ''c'', [CHR 0xE7]),
     (CHR ''e'', [CHR 0xE8, CHR 0xE9, CHR 0xEA, CHR 0xEB]),
     (CHR ''i'', [CHR 0xEC, CHR 0xED, CHR 0xEE, CHR 0xEF]),
     (CHR ''n'', [CHR 0xF1]),
     (CHR ''o'', [CHR 0xF2, CHR 0xF3, CHR 0xF4, CHR 0xF5, CHR 0xF6]),
     (CHR ''u'', [CHR 0xF9, CHR 0xFA, CHR 0xFB, CHR 0xFC]),
     (CHR ''y'', [CHR 0xFD, CHR 0xFF])]"

definition stripDiacritic :: "char \<Rightarrow> char" where
  "stripDiacritic c =
     (case find (\<lambda>(b, cs). c \<in> set cs) decompositions of
        Some (b, cs) \<Rightarrow> b
      | None \<Rightarrow> c)"

definition stripDiacritics :: "string \<Rightarrow> string" where
  "stripDiacritics s = map stripDiacritic s"

text \<open>
  \<open>s.toLowerCase()\<close>. Below 256 the letters with a lower case form are A to Z and
  U+00C0 to U+00DE without the multiplication sign U+00D7.
\<close>

definition upperCase :: string where
  "upperCase = ''ABCDEFGHIJKLMNOPQRSTUVWXYZ'' @
     [CHR 0xC0, CHR 0xC1, CHR 0xC2, CHR 0xC3, CHR 0xC4, CHR 0xC5, CHR 0xC6, CHR 0xC7,
      CHR 0xC8, CHR 0xC9, CHR 0xCA, CHR 0xCB, CHR 0xCC, CHR 0xCD, CHR 0xCE, CHR 0xCF,
      CHR 0xD0, CHR 0xD1, CHR 0xD2, CHR 0xD3, CHR 0xD4, CHR 0xD5, CHR 0xD6,
      CHR 0xD8, CHR 0xD9, CHR 0xDA, CHR 0xDB, CHR 0xDC, CHR 0xDD, CHR 0xDE]"

definition lowerCase :: string where
  "lowerCase = ''abcdefghijklmnopqrstuvwxyz'' @
     [CHR 0xE0, CHR 0xE1, CHR 0xE2, CHR 0xE3, CHR 0xE4, CHR 0xE5, CHR 0xE6, CHR 0xE7,
      CHR 0xE8, CHR 0xE9, CHR 0xEA, CHR 0xEB, CHR 0xEC, CHR 0xED, CHR 0xEE, CHR 0xEF,
      CHR 0xF0, CHR 0xF1, CHR 0xF2, CHR 0xF3, CHR 0xF4, CHR 0xF5, CHR 0xF6,
      CHR 0xF8, CHR 0xF9, CHR 0xFA, CHR 0xFB, CHR 0xFC, CHR 0xFD, CHR 0xFE]"

definition toLowerChar :: "char \<Rightarrow> char" where
  "toLowerChar c = (case map_of (zip upperCase lowerCase) c of Some l \<Rightarrow> l | None \<Rightarrow> c)"

definition toLowerCase :: "string \<Rightarrow> string" where
  "toLowerCase s = map toLowerChar s"

definition ORG_SUFFIXES :: "string list" where
  "ORG_SUFFIXES =
    [''incorporated'', ''inc'', ''corporation'', ''corp'', ''association'', ''assoc'',
     ''assn'', ''organization'', ''org'', ''limited'', ''ltd'', ''llc'', ''llp'', ''lp'',
     ''co'', ''company'', ''nfp'', ''pbc'']"

text \<open>
  \<open>TRAILING_SUFFIX_PATTERN\<close> is \<open>\s+(incorporated|inc|...|pbc)$\<close> with the flag \<open>i\<close>. The
  flag compares letters without their case; the words of the pattern are ASCII letters,
  which only ASCII letters match. \<open>isOrgSuffix t\<close>: the alternation matches the whole of
  \<open>t\<close>.
\<close>

definition asciiLower :: "char \<Rightarrow> char" where
  "asciiLower c =
     (case map_of (zip ''ABCDEFGHIJKLMNOPQRSTUVWXYZ'' ''abcdefghijklmnopqrstuvwxyz'') c of
        Some l \<Rightarrow> l
      | None \<Rightarrow> c)"

definition isOrgSuffix :: "string \<Rightarrow> bool" where
  "isOrgSuffix t = (map asciiLower t \<in> set ORG_SUFFIXES)"

text \<open>
  \<open>s.replace(TRAILING_SUFFIX_PATTERN, "")\<close>. The pattern has no flag \<open>g\<close>: the leftmost
  match is replaced. A match starts at a white space character from which a run of white
  space and then one of the words lead to the end of the string; the word has no white
  space, so the run is the longest one. The scan goes from the left, and the match, which
  ends at the end of the string, is cut off.
\<close>

fun stripTrailingSuffix :: "string \<Rightarrow> string" where
  "stripTrailingSuffix [] = []"
| "stripTrailingSuffix (c # cs) =
     (if isSpace c \<and> isOrgSuffix (dropWhile isSpace cs) then []
      else c # stripTrailingSuffix cs)"

text \<open>\<open>s.replace(/^the\s+/, "")\<close>: the word at the very start, with the white space after it.\<close>

fun stripThePrefix :: "string \<Rightarrow> string" where
  "stripThePrefix (a # b # c # d # rest) =
     (if [a, b, c] = ''the'' \<and> isSpace d then dropWhile isSpace rest
      else a # b # c # d # rest)"
| "stripThePrefix s = s"

text \<open>
  The loop \<open>do { prev = normalized; normalized = normalized.replace(...); iterations++ }
  while (normalized !== prev && iterations < 10)\<close>, entered with \<open>iterations = 0\<close>.
\<close>

function suffixLoop :: "nat \<Rightarrow> string \<Rightarrow> string" where
  "suffixLoop iterations normalized =
     (let prev = normalized;
          normalized' = stripTrailingSuffix normalized;
          iterations' = iterations + 1
      in if normalized' \<noteq> prev \<and> iterations' < 10
         then suffixLoop iterations' normalized'
         else normalized')"
  by pat_completeness auto
termination
  by (relation "measure (\<lambda>(iterations, normalized). 10 - iterations)") auto

declare suffixLoop.simps [simp del]

text \<open>\<open>s.replace(/\s+/g, " ")\<close>: every longest run of white space becomes one space.\<close>

function collapseWhitespace :: "string \<Rightarrow> string" where
  "collapseWhitespace [] = []"
| "collapseWhitespace (c # cs) =
     (if isSpace c then CHR '' '' # collapseWhitespace (dropWhile isSpace cs)
      else c # collapseWhitespace cs)"
  by pat_completeness auto
termination
  by (relation "measure length") (auto simp: le_imp_less_Suc length_dropWhile_le)

definition normalizeName :: "string \<Rightarrow> string" where
  "normalizeName name =
     (let normalized = stripDiacritics name;
          normalized = toLowerCase normalized;
          normalized = filter (\<lambda>c. isLowerAlnum c \<or> isSpace c) normalized;
          normalized = stripThePrefix normalized;
          normalized = suffixLoop 0 normalized;
          normalized = trim (collapseWhitespace normalized)
      in normalized)"


section \<open>types.ts\<close>

text \<open>
  A field is written with a prefix where its name is also the name of a field of another
  interface or of a parameter of a function. The optional fields of a result are options:
  \<open>None\<close> is a field left out.
\<close>

record IrsRevocationRow =
  row_ein :: string
  legalName :: string
  dba :: string
  city :: string
  state :: string
  zipCode :: string
  country :: string
  exemptionType :: string
  revocationDate :: string
  postingDate :: string
  reinstatementDate :: string

record IrsRevocationResult =
  irs_found :: bool
  irs_revoked :: bool
  irs_detail :: string
  irs_revocationDate :: "string option"
  irs_reinstatementDate :: "string option"
  irs_legalName :: "string option"

record OfacSdnRow =
  entNum :: string
  sdn_name :: string
  sdnType :: string
  program :: string
  title :: string
  remarks :: string

record OfacAltRow =
  alt_entNum :: string
  altNum :: string
  altType :: string
  altName :: string
  altRemarks :: string

record OfacMatch =
  match_entNum :: string
  match_name :: string
  match_sdnType :: string
  match_program :: string
  matchedOn :: string

record OfacSanctionsResult =
  ofac_found :: bool
  ofac_detail :: string
  matches :: "OfacMatch list"

record CourtListenerCase =
  case_id :: int
  caseName :: string
  case_court :: string
  dateArgued :: "string option"
  dateFiled :: "string option"
  docketNumber :: string
  absoluteUrl :: string

record CourtRecordsResult =
  court_found :: bool
  court_detail :: string
  caseCount :: int
  cases :: "CourtListenerCase list"

datatype RedFlagSeverity = CRITICAL | HIGH | MEDIUM

datatype RedFlagSource = irs_revocation | ofac_sanctions | court_records

datatype Recommendation = CLEAN | FLAG | BLOCK

record RedFlag =
  severity :: RedFlagSeverity
  flag_source :: RedFlagSource
  flag_type :: string
  detail :: string

record RedFlagChecks =
  checks_irs_revocation :: IrsRevocationResult
  checks_ofac_sanctions :: OfacSanctionsResult
  checks_court_records :: CourtRecordsResult

record RedFlagSummary =
  headline :: string
  sources_checked :: nat
  flags_found :: nat
  summary_recommendation :: Recommendation

record RedFlagReport =
  report_ein :: string
  report_name :: string
  checks :: RedFlagChecks
  report_flags :: "RedFlag list"
  clean :: bool
  summary :: RedFlagSummary

text \<open>
  The manifest keeps \<open>downloaded_at\<close> as the ISO text of an instant; the model keeps the
  instant, in milliseconds since the epoch, as \<open>Date.now()\<close> gives it.
\<close>

record IrsManifestEntry =
  irs_downloaded_at :: int
  row_count :: nat

record OfacManifestEntry =
  ofac_downloaded_at :: int
  sdn_count :: nat
  alt_count :: nat

record DataManifest =
  manifest_irs_revocation :: "IrsManifestEntry option"
  manifest_ofac_sdn :: "OfacManifestEntry option"

record 'a ToolResponse =
  success :: bool
  data :: "'a option"
  error :: "string option"
  attribution :: string

record CheckRedFlagsInput =
  input_ein :: string
  input_name :: string

datatype RefreshSource = src_irs | src_ofac | src_all

record RefreshResult =
  irs_refreshed :: bool
  ofac_refreshed :: bool


section \<open>config.ts\<close>

record RedFlagConfig =
  courtlistenerApiToken :: "string option"
  courtlistenerBaseUrl :: string
  courtlistenerRateLimitMs :: int
  dataDir :: string
  dataMaxAgeDays :: int


section \<open>scoring.ts\<close>

definition aggregateFlags ::
  "IrsRevocationResult \<Rightarrow> OfacSanctionsResult \<Rightarrow> CourtRecordsResult \<Rightarrow> RedFlag list" where
  "aggregateFlags irs ofac court =
     (let flags = [];
          flags = (if irs_revoked irs
                   then flags @ [\<lparr>severity = CRITICAL, flag_source = irs_revocation,
                                   flag_type = ''tax_exempt_status_revoked'',
                                   detail = irs_detail irs\<rparr>]
                   else flags);
          flags = (if ofac_found ofac
                   then flags @ [\<lparr>severity = CRITICAL, flag_source = ofac_sanctions,
                                   flag_type = ''sanctions_list_match'',
                                   detail = ofac_detail ofac\<rparr>]
                   else flags);
          flags = (if court_found court
                   then (let severity = (if caseCount court \<ge> 3 then HIGH else MEDIUM)
                         in flags @ [\<lparr>severity = severity, flag_source = court_records,
                                        flag_type = ''federal_court_cases'',
                                        detail = court_detail court\<rparr>])
                   else flags)
      in flags)"

definition getRecommendation :: "RedFlag list \<Rightarrow> Recommendation" where
  "getRecommendation flags =
     (if list_ex (\<lambda>f. severity f = CRITICAL) flags then BLOCK
      else if length flags > 0 then FLAG
      else CLEAN)"


section \<open>messages.ts\<close>

fun HEADLINES :: "Recommendation \<Rightarrow> string" where
  "HEADLINES CLEAN = ''No Red Flags Detected''"
| "HEADLINES FLAG = ''Red Flags Found '' @ emDash @ '' Manual Review Required''"
| "HEADLINES BLOCK = ''CRITICAL Red Flags '' @ emDash @ '' Do Not Proceed''"

definition generateSummary :: "RedFlag list \<Rightarrow> Recommendation \<Rightarrow> nat \<Rightarrow> RedFlagSummary" where
  "generateSummary flags recommendation sourcesChecked =
     \<lparr>headline = HEADLINES recommendation,
      sources_checked = sourcesChecked,
      flags_found = length flags,
      summary_recommendation = recommendation\<rparr>"


section \<open>csv-loader.ts\<close>

definition MAX_ZIP_SIZE_BYTES :: nat where
  "MAX_ZIP_SIZE_BYTES = 100 * 1024 * 1024"

definition MAX_DOWNLOAD_BYTES :: nat where
  "MAX_DOWNLOAD_BYTES = 50 * 1024 * 1024"

definition MIN_IRS_ROWS :: nat where
  "MIN_IRS_ROWS = 400000"

definition MIN_OFAC_ENTRIES :: nat where
  "MIN_OFAC_ENTRIES = 4000"

definition REFRESH_COOLDOWN_MS :: int where
  "REFRESH_COOLDOWN_MS = 60000"

text \<open>
  A JavaScript \<open>Map\<close> is the list of its entries in the order of insertion:
  \<open>m.get(k)\<close> is \<open>map_of m k\<close>, \<open>m.set(k, v)\<close> is \<open>AList.update k v m\<close> (the value is replaced
  where the key stands, a new key is added at the end), \<open>m.size\<close> is \<open>length m\<close>.
\<close>

type_synonym ('k, 'v) Map = "('k \<times> 'v) list"

record CsvDataStore =
  irsMap :: "(string, IrsRevocationRow) Map"
  ofacNameMap :: "(string, OfacSdnRow list) Map"
  config :: RedFlagConfig
  lastRefreshAt :: int

definition newCsvDataStore :: "RedFlagConfig \<Rightarrow> CsvDataStore" where
  "newCsvDataStore cfg = \<lparr>irsMap = [], ofacNameMap = [], config = cfg, lastRefreshAt = 0\<rparr>"

subsection \<open>What is outside the store\<close>

text \<open>
  The archive the IRS serves: what \<open>unzipper.Open.file\<close> finds in it, or the error it
  throws. An entry has the size its header declares and the bytes \<open>file.buffer()\<close>
  extracts (or the error it throws); the bytes are the text \<open>toString('utf-8')\<close> reads,
  one byte for one character.
\<close>

record ZipEntry =
  uncompressedSize :: nat
  buffer :: "string + string"

datatype ZipFile = NotAZip string | ZipDirectory "ZipEntry list"

text \<open>
  The text of an OFAC file is kept as what \<open>parse\<close> of the library csv-parse reads in it
  (with the options \<open>relax_column_count\<close>, \<open>skip_empty_lines\<close> and the quote \<open>"\<close>): the
  records, each a list of fields, or the error it throws.
\<close>

datatype CsvFile = CsvInvalid string | CsvRecords "string list list"

definition parse :: "CsvFile \<Rightarrow> string + string list list" where
  "parse content = (case content of CsvInvalid msg \<Rightarrow> Inl msg | CsvRecords records \<Rightarrow> Inr records)"

text \<open>
  The world of a store: the clock \<open>Date.now()\<close> reads, the files of the data directory
  (\<open>None\<close>: the file does not exist; the manifest is \<open>None\<close> also when it cannot be read
  as JSON), what a GET of each of the three addresses yields (\<open>Inl\<close>: axios rejects, with
  its message: no answer, a timeout, a body over \<open>MAX_DOWNLOAD_BYTES\<close>) and the time a
  download takes. Writing a file and reading a file that exists do not fail. Log lines
  are not part of the model.
\<close>

record World =
  clock :: int
  irsZipFile :: "ZipFile option"
  irsCsvFile :: "string option"
  sdnCsvFile :: "CsvFile option"
  altCsvFile :: "CsvFile option"
  manifestFile :: "DataManifest option"
  irsRemote :: "string + ZipFile"
  sdnRemote :: "string + CsvFile"
  altRemote :: "string + CsvFile"
  downloadMs :: nat

text \<open>
  An operation of the store takes the store and the world and gives its result
  (\<open>Inl\<close>: the error thrown, with its message), the store and the world after it.
\<close>

type_synonym 'a outcome = "(string + 'a) \<times> CsvDataStore \<times> World"

definition loadManifest :: "World \<Rightarrow> DataManifest" where
  "loadManifest w =
     (case manifestFile w of
        Some manifest \<Rightarrow> manifest
      | None \<Rightarrow> \<lparr>manifest_irs_revocation = None, manifest_ofac_sdn = None\<rparr>)"

definition saveManifest :: "World \<Rightarrow> DataManifest \<Rightarrow> World" where
  "saveManifest w manifest = w\<lparr>manifestFile := Some manifest\<rparr>"

text \<open>
  \<open>isStale\<close>: the age in days, \<open>(now - downloaded) / (1000 * 60 * 60 * 24)\<close>, is over
  \<open>dataMaxAgeDays\<close>; the division is multiplied out.
\<close>

definition isStale :: "CsvDataStore \<Rightarrow> World \<Rightarrow> int option \<Rightarrow> bool" where
  "isStale store w downloadedAt =
     (case downloadedAt of
        None \<Rightarrow> True
      | Some downloaded \<Rightarrow>
          clock w - downloaded > dataMaxAgeDays (config store) * (1000 * 60 * 60 * 24))"

subsection \<open>Lookups\<close>

text \<open>\<open>ein.replace(/[-\s]/g, '')\<close> and \<open>/^\d{9}$/.test(s)\<close>.\<close>

definition stripDashSpace :: "string \<Rightarrow> string" where
  "stripDashSpace s = filter (\<lambda>c. \<not> (c = CHR ''-'' \<or> isSpace c)) s"

definition isNineDigits :: "string \<Rightarrow> bool" where
  "isNineDigits s = (length s = 9 \<and> list_all isDigit s)"

definition lookupEin :: "CsvDataStore \<Rightarrow> string \<Rightarrow> IrsRevocationRow option" where
  "lookupEin store ein = (let normalized = stripDashSpace ein in map_of (irsMap store) normalized)"

definition lookupName :: "CsvDataStore \<Rightarrow> string \<Rightarrow> OfacSdnRow list" where
  "lookupName store name =
     (let normalized = normalizeName name
      in case map_of (ofacNameMap store) normalized of Some rows \<Rightarrow> rows | None \<Rightarrow> [])"

subsection \<open>The IRS revocation list\<close>

text \<open>The loop of \<open>parseIrsCsv\<close> over the lines after the header, with the map it fills.\<close>

fun parseIrsLines ::
  "string list \<Rightarrow> (string, IrsRevocationRow) Map \<Rightarrow> (string, IrsRevocationRow) Map" where
  "parseIrsLines [] m = m"
| "parseIrsLines (l # ls) m =
     (let line = trim l in
      if line = [] then parseIrsLines ls m
      else
        let fields = split (CHR ''|'') line in
        if length fields < 11 then parseIrsLines ls m
        else
          let ein = stripDashSpace (trim (fields ! 0)) in
          if \<not> isNineDigits ein then parseIrsLines ls m
          else
            let row = \<lparr>row_ein = ein,
                       legalName = trim (fields ! 1),
                       dba = trim (fields ! 2),
                       city = trim (fields ! 3),
                       state = trim (fields ! 4),
                       zipCode = trim (fields ! 5),
                       country = trim (fields ! 6),
                       exemptionType = trim (fields ! 7),
                       revocationDate = trim (fields ! 8),
                       postingDate = trim (fields ! 9),
                       reinstatementDate = trim (fields ! 10)\<rparr>
            in parseIrsLines ls (AList.update ein row m))"

definition parseIrsCsv :: "string \<Rightarrow> (string, IrsRevocationRow) Map" where
  "parseIrsCsv content = (let lines = split (CHR 0x0A) content in parseIrsLines (drop 1 lines) [])"

text \<open>
  The \<open>try\<close> block of \<open>downloadAndParseIrs\<close>: it ends with the manifest it has written, or
  with the error thrown in it.
\<close>

definition downloadAndParseIrs_try ::
  "CsvDataStore \<Rightarrow> World \<Rightarrow> DataManifest \<Rightarrow> DataManifest outcome" where
  "downloadAndParseIrs_try store w manifest =
     (let w = w\<lparr>clock := clock w + int (downloadMs w)\<rparr> in
      case irsRemote w of
        Inl err \<Rightarrow> (Inl err, store, w)
      | Inr response \<Rightarrow>
          let w = w\<lparr>irsZipFile := Some response\<rparr> in
          (case response of
             NotAZip err \<Rightarrow> (Inl err, store, w)
           | ZipDirectory files \<Rightarrow>
               if length files = 0 then (Inl ''IRS ZIP file is empty'', store, w)
               else
                 let file = files ! 0 in
                 if uncompressedSize file > MAX_ZIP_SIZE_BYTES
                 then (Inl (''IRS ZIP entry too large: '' @ showNat (uncompressedSize file)
                            @ '' bytes (limit: '' @ showNat MAX_ZIP_SIZE_BYTES @ '')''), store, w)
                 else
                   (case buffer file of
                      Inl err \<Rightarrow> (Inl err, store, w)
                    | Inr content \<Rightarrow>
                        if length content > MAX_ZIP_SIZE_BYTES
                        then (Inl (''IRS ZIP extracted content too large: '' @ showNat (length content)
                                   @ '' bytes (limit: '' @ showNat MAX_ZIP_SIZE_BYTES @ '')''), store, w)
                        else
                          let w = w\<lparr>irsCsvFile := Some content\<rparr>;
                              newMap = parseIrsCsv content
                          in
                          if length newMap < MIN_IRS_ROWS
                          then (Inl (''IRS data too small: '' @ showNat (length newMap)
                                     @ '' rows (expected >= '' @ showNat MIN_IRS_ROWS @ '')''), store, w)
                          else
                            let store = store\<lparr>irsMap := newMap\<rparr>;
                                manifest = manifest\<lparr>manifest_irs_revocation :=
                                  Some \<lparr>irs_downloaded_at = clock w,
                                        row_count = length (irsMap store)\<rparr>\<rparr>;
                                w = saveManifest w manifest
                            in (Inr manifest, store, w))))"

text \<open>
  \<open>downloadAndParseIrs\<close> with its \<open>catch\<close>, and \<open>parseIrsFromDisk\<close>; each calls the other.
  The manifest is an object the caller passes: the caller sees what is written into it.
\<close>

function downloadAndParseIrs ::
    "CsvDataStore \<Rightarrow> World \<Rightarrow> DataManifest \<Rightarrow> DataManifest outcome"
  and parseIrsFromDisk :: "CsvDataStore \<Rightarrow> World \<Rightarrow> unit outcome" where
  "downloadAndParseIrs store w manifest =
     (case downloadAndParseIrs_try store w manifest of
        (Inr manifest', store', w') \<Rightarrow> (Inr manifest', store', w')
      | (Inl msg, store', w') \<Rightarrow>
          if irsCsvFile w' \<noteq> None
          then (case parseIrsFromDisk store' w' of
                  (Inl err, store'', w'') \<Rightarrow> (Inl err, store'', w'')
                | (Inr u, store'', w'') \<Rightarrow> (Inr manifest, store'', w''))
          else (Inl (''Cannot load IRS revocation data: '' @ msg), store', w'))"
| "parseIrsFromDisk store w =
     (case irsCsvFile w of
        None \<Rightarrow>
          (let manifest = loadManifest w in
           case downloadAndParseIrs store w manifest of
             (Inl err, store', w') \<Rightarrow> (Inl err, store', w')
           | (Inr manifest', store', w') \<Rightarrow> (Inr (), store', w'))
      | Some content \<Rightarrow>
          (let loaded = parseIrsCsv content;
               store = store\<lparr>irsMap := loaded\<rparr>
           in (Inr (), store, w)))"
  by pat_completeness auto
termination
  by (relation "measure (\<lambda>x. case x of
        Inl (store, w, manifest) \<Rightarrow> 1
      | Inr (store, w) \<Rightarrow> (if irsCsvFile w = None then 2 else 0))") auto

declare downloadAndParseIrs.simps [simp del] parseIrsFromDisk.simps [simp del]

subsection \<open>The OFAC lists\<close>

text \<open>The loops of \<open>parseSdnCsv\<close> and \<open>parseAltCsv\<close> over the records, with the rows collected.\<close>

fun parseSdnRecords :: "string list list \<Rightarrow> OfacSdnRow list \<Rightarrow> OfacSdnRow list" where
  "parseSdnRecords [] rows = rows"
| "parseSdnRecords (rec # records) rows =
     (if length rec < 6 then parseSdnRecords records rows
      else parseSdnRecords records
             (rows @ [\<lparr>entNum = trim (rec ! 0),
                        sdn_name = trim (rec ! 1),
                        sdnType = trim (rec ! 2),
                        program = trim (rec ! 3),
                        title = trim (rec ! 4),
                        remarks = trim (rec ! 5)\<rparr>]))"

definition parseSdnCsv :: "CsvFile \<Rightarrow> string + OfacSdnRow list" where
  "parseSdnCsv content =
     (case parse content of
        Inl err \<Rightarrow> Inl err
      | Inr records \<Rightarrow> Inr (parseSdnRecords records []))"

fun parseAltRecords :: "string list list \<Rightarrow> OfacAltRow list \<Rightarrow> OfacAltRow list" where
  "parseAltRecords [] rows = rows"
| "parseAltRecords (rec # records) rows =
     (if length rec < 5 then parseAltRecords records rows
      else parseAltRecords records
             (rows @ [\<lparr>alt_entNum = trim (rec ! 0),
                        altNum = trim (rec ! 1),
                        altType = trim (rec ! 2),
                        altName = trim (rec ! 3),
                        altRemarks = trim (rec ! 4)\<rparr>]))"

definition parseAltCsv :: "CsvFile \<Rightarrow> string + OfacAltRow list" where
  "parseAltCsv content =
     (case parse content of
        Inl err \<Rightarrow> Inl err
      | Inr records \<Rightarrow> Inr (parseAltRecords records []))"

text \<open>
  The two loops of \<open>buildOfacNameMap\<close>. The first fills \<open>sdnByEntNum\<close> and the name map
  from the primary rows; the second adds the aliases to the name map.
  \<open>map.get(normalized) || []\<close> is the sequence under the key, or a new empty one.
\<close>

fun indexSdnRows ::
  "OfacSdnRow list \<Rightarrow> (string, OfacSdnRow list) Map \<Rightarrow> (string, OfacSdnRow) Map
    \<Rightarrow> (string, OfacSdnRow list) Map \<times> (string, OfacSdnRow) Map" where
  "indexSdnRows [] m sdnByEntNum = (m, sdnByEntNum)"
| "indexSdnRows (row # rows) m sdnByEntNum =
     (let sdnByEntNum = AList.update (entNum row) row sdnByEntNum;
          normalized = normalizeName (sdn_name row);
          m = (if normalized \<noteq> []
               then (let existing = (case map_of m normalized of Some e \<Rightarrow> e | None \<Rightarrow> []);
                         existing = existing @ [row]
                     in AList.update normalized existing m)
               else m)
      in indexSdnRows rows m sdnByEntNum)"

fun indexAltRows ::
  "OfacAltRow list \<Rightarrow> (string, OfacSdnRow) Map \<Rightarrow> (string, OfacSdnRow list) Map
    \<Rightarrow> (string, OfacSdnRow list) Map" where
  "indexAltRows [] sdnByEntNum m = m"
| "indexAltRows (alt # alts) sdnByEntNum m =
     (case map_of sdnByEntNum (alt_entNum alt) of
        None \<Rightarrow> indexAltRows alts sdnByEntNum m
      | Some sdnRow \<Rightarrow>
          (let normalized = normalizeName (altName alt);
               m = (if normalized \<noteq> []
                    then (let existing = (case map_of m normalized of Some e \<Rightarrow> e | None \<Rightarrow> []);
                              existing = (if \<not> list_ex (\<lambda>r. entNum r = entNum sdnRow) existing
                                          then existing @ [sdnRow] else existing)
                          in AList.update normalized existing m)
                    else m)
           in indexAltRows alts sdnByEntNum m))"

definition buildOfacNameMap ::
  "OfacSdnRow list \<Rightarrow> OfacAltRow list \<Rightarrow> (string, OfacSdnRow list) Map" where
  "buildOfacNameMap sdnRows altRows =
     (case indexSdnRows sdnRows [] [] of
        (m, sdnByEntNum) \<Rightarrow> indexAltRows altRows sdnByEntNum m)"

text \<open>
  The \<open>try\<close> block of \<open>downloadAndParseOfac\<close>. The two downloads run together; when both
  fail the error of the first is the one kept here.
\<close>

definition downloadAndParseOfac_try ::
  "CsvDataStore \<Rightarrow> World \<Rightarrow> DataManifest \<Rightarrow> DataManifest outcome" where
  "downloadAndParseOfac_try store w manifest =
     (let w = w\<lparr>clock := clock w + int (downloadMs w)\<rparr> in
      case sdnRemote w of
        Inl err \<Rightarrow> (Inl err, store, w)
      | Inr sdnResponse \<Rightarrow>
          (case altRemote w of
             Inl err \<Rightarrow> (Inl err, store, w)
           | Inr altResponse \<Rightarrow>
               let w = w\<lparr>sdnCsvFile := Some sdnResponse, altCsvFile := Some altResponse\<rparr> in
               (case parseSdnCsv sdnResponse of
                  Inl err \<Rightarrow> (Inl err, store, w)
                | Inr sdnRows \<Rightarrow>
                    (case parseAltCsv altResponse of
                       Inl err \<Rightarrow> (Inl err, store, w)
                     | Inr altRows \<Rightarrow>
                         let newMap = buildOfacNameMap sdnRows altRows in
                         if length newMap < MIN_OFAC_ENTRIES
                         then (Inl (''OFAC data too small: '' @ showNat (length newMap)
                                    @ '' entries (expected >= '' @ showNat MIN_OFAC_ENTRIES @ '')''),
                               store, w)
                         else
                           let store = store\<lparr>ofacNameMap := newMap\<rparr>;
                               manifest = manifest\<lparr>manifest_ofac_sdn :=
                                 Some \<lparr>ofac_downloaded_at = clock w,
                                       sdn_count = length sdnRows,
                                       alt_count = length altRows\<rparr>\<rparr>;
                               w = saveManifest w manifest
                           in (Inr manifest, store, w)))))"

function downloadAndParseOfac ::
    "CsvDataStore \<Rightarrow> World \<Rightarrow> DataManifest \<Rightarrow> DataManifest outcome"
  and parseOfacFromDisk :: "CsvDataStore \<Rightarrow> World \<Rightarrow> unit outcome" where
  "downloadAndParseOfac store w manifest =
     (case downloadAndParseOfac_try store w manifest of
        (Inr manifest', store', w') \<Rightarrow> (Inr manifest', store', w')
      | (Inl msg, store', w') \<Rightarrow>
          if sdnCsvFile w' \<noteq> None \<and> altCsvFile w' \<noteq> None
          then (case parseOfacFromDisk store' w' of
                  (Inl err, store'', w'') \<Rightarrow> (Inl err, store'', w'')
                | (Inr u, store'', w'') \<Rightarrow> (Inr manifest, store'', w''))
          else (Inl (''Cannot load OFAC data: '' @ msg), store', w'))"
| "parseOfacFromDisk store w =
     (if sdnCsvFile w = None \<or> altCsvFile w = None
      then (let manifest = loadManifest w in
            case downloadAndParseOfac store w manifest of
              (Inl err, store', w') \<Rightarrow> (Inl err, store', w')
            | (Inr manifest', store', w') \<Rightarrow> (Inr (), store', w'))
      else
        (case parseSdnCsv (the (sdnCsvFile w)) of
           Inl err \<Rightarrow> (Inl err, store, w)
         | Inr sdnRows \<Rightarrow>
             (case parseAltCsv (the (altCsvFile w)) of
                Inl err \<Rightarrow> (Inl err, store, w)
              | Inr altRows \<Rightarrow>
                  let loaded = buildOfacNameMap sdnRows altRows;
                      store = store\<lparr>ofacNameMap := loaded\<rparr>
                  in (Inr (), store, w))))"
  by pat_completeness auto
termination
  by (relation "measure (\<lambda>x. case x of
        Inl (store, w, manifest) \<Rightarrow> 1
      | Inr (store, w) \<Rightarrow> (if sdnCsvFile w = None \<or> altCsvFile w = None then 2 else 0))") auto

declare downloadAndParseOfac.simps [simp del] parseOfacFromDisk.simps [simp del]

subsection \<open>initialize and refresh\<close>

text \<open>\<open>Math.ceil(a / b)\<close> for integers \<open>a\<close> and \<open>b > 0\<close>.\<close>

definition ceilDiv :: "int \<Rightarrow> int \<Rightarrow> int" where
  "ceilDiv a b = - ((- a) div b)"

definition initialize :: "CsvDataStore \<Rightarrow> World \<Rightarrow> unit outcome" where
  "initialize store w =
     (let manifest = loadManifest w;
          irsStale = isStale store w (map_option irs_downloaded_at (manifest_irs_revocation manifest));
          ofacStale = isStale store w (map_option ofac_downloaded_at (manifest_ofac_sdn manifest))
      in
      case (if irsStale then downloadAndParseIrs store w manifest
            else (case parseIrsFromDisk store w of
                    (Inl err, store', w') \<Rightarrow> (Inl err, store', w')
                  | (Inr u, store', w') \<Rightarrow> (Inr manifest, store', w'))) of
        (Inl err, store', w') \<Rightarrow> (Inl err, store', w')
      | (Inr manifest', store', w') \<Rightarrow>
          (case (if ofacStale then downloadAndParseOfac store' w' manifest'
                 else (case parseOfacFromDisk store' w' of
                         (Inl err, store'', w'') \<Rightarrow> (Inl err, store'', w'')
                       | (Inr u, store'', w'') \<Rightarrow> (Inr manifest', store'', w''))) of
             (Inl err, store'', w'') \<Rightarrow> (Inl err, store'', w'')
           | (Inr manifest'', store'', w'') \<Rightarrow> (Inr (), store'', w'')))"

definition refresh :: "CsvDataStore \<Rightarrow> World \<Rightarrow> RefreshSource option \<Rightarrow> RefreshResult outcome" where
  "refresh store w source =
     (let now = clock w;
          elapsed = now - lastRefreshAt store
      in
      if elapsed < REFRESH_COOLDOWN_MS
      then (let waitSec = ceilDiv (REFRESH_COOLDOWN_MS - elapsed) 1000
            in (Inl (''Refresh cooldown: try again in '' @ showInt waitSec @ ''s''), store, w))
      else
        let manifest = loadManifest w;
            target = (case source of Some s \<Rightarrow> s | None \<Rightarrow> src_all);
            refreshIrs = (target = src_irs \<or> target = src_all);
            refreshOfac = (target = src_ofac \<or> target = src_all)
        in
        case (if refreshIrs then downloadAndParseIrs store w manifest
              else (Inr manifest, store, w)) of
          (Inl err, store', w') \<Rightarrow> (Inl err, store', w')
        | (Inr manifest', store', w') \<Rightarrow>
            (case (if refreshOfac then downloadAndParseOfac store' w' manifest'
                   else (Inr manifest', store', w')) of
               (Inl err, store'', w'') \<Rightarrow> (Inl err, store'', w'')
             | (Inr manifest'', store'', w'') \<Rightarrow>
                 (Inr \<lparr>irs_refreshed = refreshIrs, ofac_refreshed = refreshOfac\<rparr>,
                  store''\<lparr>lastRefreshAt := clock w''\<rparr>, w'')))"


section \<open>irs-revocation-client.ts\<close>

text \<open>A client object holds its store and nothing else.\<close>

type_synonym IrsRevocationClient = CsvDataStore

definition IrsRevocationClient_check :: "IrsRevocationClient \<Rightarrow> string \<Rightarrow> IrsRevocationResult" where
  "IrsRevocationClient_check store ein =
     (let normalized = stripDashSpace ein in
      if \<not> isNineDigits normalized
      then \<lparr>irs_found = False, irs_revoked = False,
            irs_detail = ''Invalid EIN format: expected 9 digits, got '' @ dquote @ ein @ dquote,
            irs_revocationDate = None, irs_reinstatementDate = None, irs_legalName = None\<rparr>
      else
        (case lookupEin store normalized of
           None \<Rightarrow>
             \<lparr>irs_found = False, irs_revoked = False,
              irs_detail = ''EIN not found in IRS auto-revocation list (good '' @ emDash
                           @ '' no revocation on record)'',
              irs_revocationDate = None, irs_reinstatementDate = None, irs_legalName = None\<rparr>
         | Some row \<Rightarrow>
             if reinstatementDate row \<noteq> []
             then \<lparr>irs_found = True, irs_revoked = False,
                   irs_detail = ''Was revoked on '' @ revocationDate row @ '' but reinstated on ''
                                @ reinstatementDate row,
                   irs_revocationDate = Some (revocationDate row),
                   irs_reinstatementDate = Some (reinstatementDate row),
                   irs_legalName = Some (legalName row)\<rparr>
             else \<lparr>irs_found = True, irs_revoked = True,
                   irs_detail = ''Tax-exempt status REVOKED on '' @ revocationDate row @ '' '' @ emDash
                                @ '' failed to file Form 990 for 3 consecutive years'',
                   irs_revocationDate = Some (revocationDate row),
                   irs_reinstatementDate = None,
                   irs_legalName = Some (legalName row)\<rparr>))"


section \<open>ofac-sdn-client.ts\<close>

type_synonym OfacSdnClient = CsvDataStore

definition OfacSdnClient_check :: "OfacSdnClient \<Rightarrow> string \<Rightarrow> OfacSanctionsResult" where
  "OfacSdnClient_check store name =
     (let rows = lookupName store name in
      if length rows = 0
      then \<lparr>ofac_found = False,
            ofac_detail = ''No OFAC SDN matches found (good '' @ emDash @ '' not on sanctions list)'',
            matches = []\<rparr>
      else
        let normalized = normalizeName name;
            matches = map (\<lambda>row.
                        let primaryNormalized = normalizeName (sdn_name row);
                            matchedOn = (if normalized = primaryNormalized then ''primary'' else ''alias'')
                        in \<lparr>match_entNum = entNum row,
                            match_name = sdn_name row,
                            match_sdnType = sdnType row,
                            match_program = program row,
                            matchedOn = matchedOn\<rparr>) rows
        in \<lparr>ofac_found = True,
            ofac_detail = ''OFAC SDN MATCH '' @ emDash @ '' '' @ showNat (length matches)
                          @ '' sanctioned entity/entities found matching '' @ dquote @ name @ dquote,
            matches = matches\<rparr>)"


section \<open>tools.ts\<close>

definition ATTRIBUTION :: string where
  "ATTRIBUTION = ''Data from IRS Auto-Revocation List, US Treasury OFAC SDN List, and CourtListener (Free Law Project)''"

definition MAX_NAME_LENGTH :: nat where
  "MAX_NAME_LENGTH = 500"

definition MAX_EIN_LENGTH :: nat where
  "MAX_EIN_LENGTH = 20"

definition validationError :: "string \<Rightarrow> 'a ToolResponse" where
  "validationError message = \<lparr>success = False, data = None, error = Some message, attribution = ATTRIBUTION\<rparr>"

text \<open>
  The client of the court records is outside this model: it is what \<open>searchByOrgName\<close>
  gives for a name and a number of years, a result or the error it throws. \<open>None\<close> is
  the \<open>null\<close> client of a server with no API token.
\<close>

type_synonym CourtListenerClient = "string \<Rightarrow> int \<Rightarrow> string + CourtRecordsResult"

definition checkRedFlags ::
  "IrsRevocationClient \<Rightarrow> OfacSdnClient \<Rightarrow> CourtListenerClient option \<Rightarrow> CheckRedFlagsInput
    \<Rightarrow> RedFlagReport ToolResponse" where
  "checkRedFlags irsClient ofacClient courtClient input =
     (let ein = trim (input_ein input);
          name = trim (input_name input)
      in
      if ein = [] \<or> name = [] then validationError ''Both ein and name are required''
      else if length ein > MAX_EIN_LENGTH
      then validationError (''EIN too long (max '' @ showNat MAX_EIN_LENGTH @ '' characters)'')
      else if length name > MAX_NAME_LENGTH
      then validationError (''Name too long (max '' @ showNat MAX_NAME_LENGTH @ '' characters)'')
      else
        let irsResult = IrsRevocationClient_check irsClient ein;
            ofacResult = OfacSdnClient_check ofacClient name
        in
        case (case courtClient of
                Some searchByOrgName \<Rightarrow> searchByOrgName name 1
              | None \<Rightarrow>
                  Inr \<lparr>court_found = False,
                       court_detail = ''Court record checks not configured (no CourtListener API token)'',
                       caseCount = 0,
                       cases = []\<rparr>) of
          Inl message \<Rightarrow> validationError (''Red flag check failed: '' @ message)
        | Inr courtResult \<Rightarrow>
            let flags = aggregateFlags irsResult ofacResult courtResult;
                recommendation = getRecommendation flags;
                summary = generateSummary flags recommendation 3;
                report = \<lparr>report_ein = ein,
                          report_name = name,
                          checks = \<lparr>checks_irs_revocation = irsResult,
                                    checks_ofac_sanctions = ofacResult,
                                    checks_court_records = courtResult\<rparr>,
                          report_flags = flags,
                          clean = (length flags = 0),
                          summary = summary\<rparr>
            in \<lparr>success = True, data = Some report, error = None, attribution = ATTRIBUTION\<rparr>)"

section \<open>Data of the examples\<close>

text \<open>The results of \<open>makeCleanIrsResult\<close> and \<open>makeCleanOfacResult\<close> of the test fixtures.\<close>

definition makeCleanIrsResult :: IrsRevocationResult where
  "makeCleanIrsResult =
     \<lparr>irs_found = False, irs_revoked = False,
      irs_detail = ''EIN not found in IRS auto-revocation list (good '' @ emDash
                   @ '' no revocation on record)'',
      irs_revocationDate = None, irs_reinstatementDate = None, irs_legalName = None\<rparr>"

definition makeCleanOfacResult :: OfacSanctionsResult where
  "makeCleanOfacResult =
     \<lparr>ofac_found = False,
      ofac_detail = ''No OFAC SDN matches found (good '' @ emDash @ '' not on sanctions list)'',
      matches = []\<rparr>"

text \<open>A flag of each severity.\<close>

definition exampleFlag :: "RedFlagSeverity \<Rightarrow> RedFlag" where
  "exampleFlag sev =
     \<lparr>severity = sev,
      flag_source = (if sev = CRITICAL then ofac_sanctions else court_records),
      flag_type = (if sev = CRITICAL then ''sanctions_list_match'' else ''federal_court_cases''),
      detail = []\<rparr>"

text \<open>The flags of the litigation source in a list of flags.\<close>

definition litigationFlags :: "RedFlag list \<Rightarrow> RedFlag list" where
  "litigationFlags fs = filter (\<lambda>f. flag_source f = court_records) fs"

text \<open>A configuration, the row of \<open>makeIrsRow\<close> of the test fixtures with its reinstatement
  date, and a store that holds this row.\<close>

definition exampleConfig :: RedFlagConfig where
  "exampleConfig =
     \<lparr>courtlistenerApiToken = None,
      courtlistenerBaseUrl = ''https://www.courtlistener.com/api/rest/v4'',
      courtlistenerRateLimitMs = 500,
      dataDir = ''data'',
      dataMaxAgeDays = 7\<rparr>"

definition makeIrsRow :: "string \<Rightarrow> IrsRevocationRow" where
  "makeIrsRow reinstated =
     \<lparr>row_ein = ''123456789'',
      legalName = ''REVOKED NONPROFIT INC'',
      dba = [],
      city = ''NEW YORK'',
      state = ''NY'',
      zipCode = ''10001'',
      country = ''US'',
      exemptionType = ''03'',
      revocationDate = ''2022-05-15'',
      postingDate = ''2022-06-01'',
      reinstatementDate = reinstated\<rparr>"

definition exampleStore :: "string \<Rightarrow> CsvDataStore" where
  "exampleStore reinstated =
     (newCsvDataStore exampleConfig)\<lparr>irsMap := [(''123456789'', makeIrsRow reinstated)]\<rparr>"

text \<open>
  The shape of a normalized name: its characters are lower case letters, digits and the
  space; every white space character is a space and no two stand side by side.
\<close>

definition plainChar :: "char \<Rightarrow> bool" where
  "plainChar c = (isLowerAlnum c \<or> c = CHR '' '')"

fun collapsed :: "string \<Rightarrow> bool" where
  "collapsed [] = True"
| "collapsed (c # cs) =
     ((if isSpace c then c = CHR '' '' \<and> (case cs of [] \<Rightarrow> True | d # ds \<Rightarrow> \<not> isSpace d) else True)
      \<and> collapsed cs)"

text \<open>
  The sequence of a key in a name map (empty when the key is absent), the name maps
  with no entry under the empty key, and the stores a program can hold: a new store, and
  the store after \<open>initialize\<close> or \<open>refresh\<close> has run on such a store, in any world
  and with any result.
\<close>

definition sequenceAt :: "(string, OfacSdnRow list) Map \<Rightarrow> string \<Rightarrow> OfacSdnRow list" where
  "sequenceAt m k = (case map_of m k of Some e \<Rightarrow> e | None \<Rightarrow> [])"

definition noEmptyKey :: "CsvDataStore \<Rightarrow> bool" where
  "noEmptyKey store = (map_of (ofacNameMap store) [] = None)"

inductive reachable :: "CsvDataStore \<Rightarrow> bool" where
  created: "reachable (newCsvDataStore cfg)"
| initialized: "reachable store \<Longrightarrow> initialize store w = (result, store', w') \<Longrightarrow> reachable store'"
| refreshed: "reachable store \<Longrightarrow> refresh store w source = (result, store', w') \<Longrightarrow> reachable store'"

text \<open>
  Rows of the OFAC lists, as \<open>makeOfacRow\<close> of the test fixtures makes them.
\<close>

definition makeOfacRow :: "string \<Rightarrow> string \<Rightarrow> OfacSdnRow" where
  "makeOfacRow num nm =
     \<lparr>entNum = num, sdn_name = nm, sdnType = ''Entity'', program = ''SDGT'',
      title = [], remarks = []\<rparr>"

definition makeAltRow :: "string \<Rightarrow> string \<Rightarrow> OfacAltRow" where
  "makeAltRow num nm =
     \<lparr>alt_entNum = num, altNum = ''1'', altType = ''aka'', altName = nm, altRemarks = []\<rparr>"

text \<open>
  A world whose servers have small lists: an IRS archive with one row, an SDN list with
  two entities (the name of the second has no letter or digit) and two aliases. The disk
  is empty. The store and the world after a first \<open>refresh\<close> in it.
\<close>

definition exampleIrsCsv :: string where
  "exampleIrsCsv =
     ''EIN|Legal Name|DBA|City|State|ZIP|Country|Exemption Type|Revocation Date|Posting Date|Reinstatement Date''
     @ [CHR 0x0A]
     @ ''98-7654321|SMALL CHARITY||AUSTIN|TX|73301|US|03|15-MAY-2020|11-AUG-2020|''
     @ [CHR 0x0A]"

definition exampleSdnRecords :: "string list list" where
  "exampleSdnRecords =
     [[''111'', ''Acme Inc'', ''Entity'', ''SDGT'', ''-0-'', ''-0-''],
      [''333'', ''!!!'', ''Entity'', ''SDGT'', ''-0-'', ''-0-'']]"

definition exampleAltRecords :: "string list list" where
  "exampleAltRecords =
     [[''111'', ''1'', ''aka'', ''ACME'', ''-0-''],
      [''111'', ''2'', ''aka'', ''Apex Org'', ''-0-'']]"

definition exampleWorld :: World where
  "exampleWorld =
     \<lparr>clock = 1700000000000,
      irsZipFile = None,
      irsCsvFile = None,
      sdnCsvFile = None,
      altCsvFile = None,
      manifestFile = None,
      irsRemote = Inr (ZipDirectory [\<lparr>uncompressedSize = 178, buffer = Inr exampleIrsCsv\<rparr>]),
      sdnRemote = Inr (CsvRecords exampleSdnRecords),
      altRemote = Inr (CsvRecords exampleAltRecords),
      downloadMs = 1500\<rparr>"

definition exampleSmallRow :: IrsRevocationRow where
  "exampleSmallRow =
     \<lparr>row_ein = ''987654321'', legalName = ''SMALL CHARITY'', dba = [],
      city = ''AUSTIN'', state = ''TX'', zipCode = ''73301'',
      country = ''US'', exemptionType = ''03'',
      revocationDate = ''15-MAY-2020'', postingDate = ''11-AUG-2020'',
      reinstatementDate = []\<rparr>"

definition exampleAcmeRow :: OfacSdnRow where
  "exampleAcmeRow =
     \<lparr>entNum = ''111'', sdn_name = ''Acme Inc'', sdnType = ''Entity'', program = ''SDGT'',
      title = ''-0-'', remarks = ''-0-''\<rparr>"

definition exampleRefreshedStore :: CsvDataStore where
  "exampleRefreshedStore =
     \<lparr>irsMap = [(''987654321'', exampleSmallRow)],
      ofacNameMap = [(''acme'', [exampleAcmeRow]), (''apex'', [exampleAcmeRow])],
      config = exampleConfig,
      lastRefreshAt = 1700000003000\<rparr>"

definition exampleRefreshedWorld :: World where
  "exampleRefreshedWorld =
     exampleWorld\<lparr>clock := 1700000003000,
                  irsZipFile := Some (ZipDirectory [\<lparr>uncompressedSize = 178, buffer = Inr exampleIrsCsv\<rparr>]),
                  irsCsvFile := Some exampleIrsCsv,
                  sdnCsvFile := Some (CsvRecords exampleSdnRecords),
                  altCsvFile := Some (CsvRecords exampleAltRecords)\<rparr>"

text \<open>
  The first call of \<open>refresh\<close> on the new store, in this world.
\<close>

definition firstRefresh :: "RefreshResult outcome" where
  "firstRefresh = refresh (newCsvDataStore exampleConfig) exampleWorld None"

text \<open>
  The same world with a cache on the disk: the file \<open>irs-revocation.csv\<close> that holds the
  row of the store \<open>exampleStore []\<close>.
\<close>

definition exampleCachedCsv :: string where
  "exampleCachedCsv =
     ''EIN|Legal Name|DBA|City|State|ZIP|Country|Exemption Type|Revocation Date|Posting Date|Reinstatement Date''
     @ [CHR 0x0A]
     @ ''12-3456789|REVOKED NONPROFIT INC||NEW YORK|NY|10001|US|03|2022-05-15|2022-06-01|''
     @ [CHR 0x0A]"

definition exampleCachedWorld :: World where
  "exampleCachedWorld = exampleWorld\<lparr>irsCsvFile := Some exampleCachedCsv\<rparr>"

text \<open>
  A world whose IRS server answers with an archive that has no entry, with nothing on the
  disk. A call of \<open>refresh\<close> for the IRS list on the new store in this world, and a
  second call on the store the first has left, one second after the first has ended.
\<close>

definition emptyZipWorld :: World where
  "emptyZipWorld = exampleWorld\<lparr>irsRemote := Inr (ZipDirectory [])\<rparr>"

definition failedRefresh :: "RefreshResult outcome" where
  "failedRefresh = refresh (newCsvDataStore exampleConfig) emptyZipWorld (Some src_irs)"

definition retriedRefresh :: "RefreshResult outcome" where
  "retriedRefresh =
     refresh (fst (snd failedRefresh))
       ((snd (snd failedRefresh))\<lparr>clock := clock (snd (snd failedRefresh)) + 1000\<rparr>)
       (Some src_irs)"

text \<open>
  A world with a fresh manifest and a cache on the disk; the cached SDN list has the
  entities "The The" and "Inc Ltd". The servers do not answer. The store that
  \<open>initialize\<close> leaves in this world.
\<close>

definition exampleTheRecords :: "string list list" where
  "exampleTheRecords =
     [[''777'', ''The The'', ''Entity'', ''SDGT'', ''-0-'', ''-0-''],
      [''778'', ''Inc Ltd'', ''Entity'', ''SDGT'', ''-0-'', ''-0-'']]"

definition exampleTheWorld :: World where
  "exampleTheWorld =
     \<lparr>clock = 1700000000000,
      irsZipFile = None,
      irsCsvFile = Some exampleCachedCsv,
      sdnCsvFile = Some (CsvRecords exampleTheRecords),
      altCsvFile = Some (CsvRecords []),
      manifestFile = Some
        \<lparr>manifest_irs_revocation = Some \<lparr>irs_downloaded_at = 1699999000000, row_count = 1\<rparr>,
         manifest_ofac_sdn =
           Some \<lparr>ofac_downloaded_at = 1699999000000, sdn_count = 2, alt_count = 0\<rparr>\<rparr>,
      irsRemote = Inl ''getaddrinfo ENOTFOUND apps.irs.gov'',
      sdnRemote = Inl ''getaddrinfo ENOTFOUND www.treasury.gov'',
      altRemote = Inl ''getaddrinfo ENOTFOUND www.treasury.gov'',
      downloadMs = 1500\<rparr>"

definition exampleTheStore :: CsvDataStore where
  "exampleTheStore =
     \<lparr>irsMap = [(''123456789'', makeIrsRow [])],
      ofacNameMap =
        [(''the'', [\<lparr>entNum = ''777'', sdn_name = ''The The'', sdnType = ''Entity'',
                      program = ''SDGT'', title = ''-0-'', remarks = ''-0-''\<rparr>]),
         (''inc'', [\<lparr>entNum = ''778'', sdn_name = ''Inc Ltd'', sdnType = ''Entity'',
                      program = ''SDGT'', title = ''-0-'', remarks = ''-0-''\<rparr>])],
      config = exampleConfig,
      lastRefreshAt = 0\<rparr>"


section \<open>Properties\<close>

subsection \<open>Aggregation and recommendation\<close>

text \<open>
  C6. \<open>getRecommendation\<close> depends on the list of flags only: the empty list gives CLEAN, a
  list that is not empty and has no CRITICAL flag gives FLAG, and a list with a CRITICAL
  flag gives BLOCK, whatever else is in it.
\<close>

theorem getRecommendation_thresholds:
  "(fs = [] \<longrightarrow> getRecommendation fs = CLEAN) \<and>
   (fs \<noteq> [] \<and> (\<forall>f \<in> set fs. severity f \<noteq> CRITICAL) \<longrightarrow> getRecommendation fs = FLAG) \<and>
   ((\<exists>f \<in> set fs. severity f = CRITICAL) \<longrightarrow> getRecommendation fs = BLOCK)"
  by (auto simp: getRecommendation_def list_ex_iff)

theorem getRecommendation_thresholds_witness:
  "getRecommendation [] = CLEAN \<and>
   getRecommendation [exampleFlag MEDIUM, exampleFlag HIGH] = FLAG \<and>
   getRecommendation [exampleFlag MEDIUM, exampleFlag CRITICAL, exampleFlag HIGH] = BLOCK"
proof -
  have none: "\<forall>f \<in> set [exampleFlag MEDIUM, exampleFlag HIGH]. severity f \<noteq> CRITICAL"
    by (simp add: exampleFlag_def)
  have some: "\<exists>f \<in> set [exampleFlag MEDIUM, exampleFlag CRITICAL, exampleFlag HIGH]. severity f = CRITICAL"
    by (simp add: exampleFlag_def)
  from getRecommendation_thresholds [of "[]"]
  have "getRecommendation [] = CLEAN" by simp
  moreover from getRecommendation_thresholds [of "[exampleFlag MEDIUM, exampleFlag HIGH]"] none
  have "getRecommendation [exampleFlag MEDIUM, exampleFlag HIGH] = FLAG" by blast
  moreover from getRecommendation_thresholds
      [of "[exampleFlag MEDIUM, exampleFlag CRITICAL, exampleFlag HIGH]"] some
  have "getRecommendation [exampleFlag MEDIUM, exampleFlag CRITICAL, exampleFlag HIGH] = BLOCK"
    by blast
  ultimately show ?thesis by simp
qed

text \<open>
  C4, as the code has it. \<open>aggregateFlags\<close> decides on the field \<open>found\<close> of the litigation
  result, not on its \<open>caseCount\<close>: a result with \<open>found\<close> gives exactly one litigation flag,
  HIGH when \<open>caseCount\<close> is 3 or more and MEDIUM otherwise, and a result without \<open>found\<close>
  gives no litigation flag, whatever the other fields and the other two results are.
\<close>

theorem aggregateFlags_litigation:
  "litigationFlags (aggregateFlags irs ofac court) =
     (if court_found court
      then [\<lparr>severity = (if caseCount court \<ge> 3 then HIGH else MEDIUM),
              flag_source = court_records,
              flag_type = ''federal_court_cases'',
              detail = court_detail court\<rparr>]
      else [])"
  by (simp add: aggregateFlags_def litigationFlags_def Let_def)

text \<open>
  C4 as the claim states it fails: a result with \<open>found\<close> and a \<open>caseCount\<close> of 0 gives a
  MEDIUM litigation flag, and a result without \<open>found\<close> and with a \<open>caseCount\<close> of 5 gives
  none.
\<close>

theorem aggregateFlags_caseCount_counterexample:
  "litigationFlags (aggregateFlags makeCleanIrsResult makeCleanOfacResult
       \<lparr>court_found = True, court_detail = ''Found 0 federal court case(s)'',
        caseCount = 0, cases = []\<rparr>)
     = [\<lparr>severity = MEDIUM, flag_source = court_records, flag_type = ''federal_court_cases'',
         detail = ''Found 0 federal court case(s)''\<rparr>]
   \<and> litigationFlags (aggregateFlags makeCleanIrsResult makeCleanOfacResult
       \<lparr>court_found = False, court_detail = ''No federal court cases found'',
        caseCount = 5, cases = []\<rparr>)
     = []"
  by (simp add: aggregateFlags_def litigationFlags_def Let_def makeCleanIrsResult_def
        makeCleanOfacResult_def)

subsection \<open>The revocation check\<close>

lemma stripDashSpace_idem: "stripDashSpace (stripDashSpace s) = stripDashSpace s"
  by (simp add: stripDashSpace_def)

text \<open>
  C5. \<open>IrsRevocationClient.check\<close> has four outcomes. An EIN that is not nine digits once
  dashes and white space are removed gives \<open>found = false\<close>, \<open>revoked = false\<close> and the
  detail "Invalid EIN format: expected 9 digits, got ...", and the result is the same for
  every store (the store is not asked). A well-formed EIN with no row gives
  \<open>found = false\<close>, \<open>revoked = false\<close>; a row with an empty reinstatement date gives
  \<open>found = true\<close>, \<open>revoked = true\<close>; a row with a reinstatement date gives \<open>found = true\<close>,
  \<open>revoked = false\<close>.
\<close>

theorem IrsRevocationClient_check_classification:
  "(\<not> isNineDigits (stripDashSpace ein) \<longrightarrow>
      IrsRevocationClient_check store ein =
        \<lparr>irs_found = False, irs_revoked = False,
         irs_detail = ''Invalid EIN format: expected 9 digits, got '' @ dquote @ ein @ dquote,
         irs_revocationDate = None, irs_reinstatementDate = None, irs_legalName = None\<rparr>
      \<and> IrsRevocationClient_check store' ein = IrsRevocationClient_check store ein)
   \<and> (isNineDigits (stripDashSpace ein) \<and> lookupEin store ein = None \<longrightarrow>
        \<not> irs_found (IrsRevocationClient_check store ein)
        \<and> \<not> irs_revoked (IrsRevocationClient_check store ein))
   \<and> (isNineDigits (stripDashSpace ein) \<and> lookupEin store ein = Some row
        \<and> reinstatementDate row = [] \<longrightarrow>
        irs_found (IrsRevocationClient_check store ein)
        \<and> irs_revoked (IrsRevocationClient_check store ein))
   \<and> (isNineDigits (stripDashSpace ein) \<and> lookupEin store ein = Some row
        \<and> reinstatementDate row \<noteq> [] \<longrightarrow>
        irs_found (IrsRevocationClient_check store ein)
        \<and> \<not> irs_revoked (IrsRevocationClient_check store ein))"
  by (simp add: IrsRevocationClient_check_def lookupEin_def stripDashSpace_idem Let_def)

theorem IrsRevocationClient_check_classification_witness:
  "IrsRevocationClient_check (exampleStore []) ''12-ABC6789'' =
      \<lparr>irs_found = False, irs_revoked = False,
       irs_detail = ''Invalid EIN format: expected 9 digits, got '' @ dquote @ ''12-ABC6789'' @ dquote,
       irs_revocationDate = None, irs_reinstatementDate = None, irs_legalName = None\<rparr>
   \<and> IrsRevocationClient_check (newCsvDataStore exampleConfig) ''12-ABC6789''
       = IrsRevocationClient_check (exampleStore []) ''12-ABC6789''
   \<and> \<not> irs_found (IrsRevocationClient_check (newCsvDataStore exampleConfig) ''12-3456789'')
   \<and> \<not> irs_revoked (IrsRevocationClient_check (newCsvDataStore exampleConfig) ''12-3456789'')
   \<and> irs_found (IrsRevocationClient_check (exampleStore []) ''12-3456789'')
   \<and> irs_revoked (IrsRevocationClient_check (exampleStore []) ''12-3456789'')
   \<and> irs_found (IrsRevocationClient_check (exampleStore ''2023-01-10'') ''12-3456789'')
   \<and> \<not> irs_revoked (IrsRevocationClient_check (exampleStore ''2023-01-10'') ''12-3456789'')"
proof -
  have malformed: "\<not> isNineDigits (stripDashSpace ''12-ABC6789'')"
    by (simp add: isNineDigits_def stripDashSpace_def isSpace_def isDigit_def)
  have wellformed: "isNineDigits (stripDashSpace ''12-3456789'')"
    by (simp add: isNineDigits_def stripDashSpace_def isSpace_def isDigit_def)
  have absent: "lookupEin (newCsvDataStore exampleConfig) ''12-3456789'' = None"
    by (simp add: lookupEin_def stripDashSpace_def isSpace_def newCsvDataStore_def)
  have present: "lookupEin (exampleStore r) ''12-3456789'' = Some (makeIrsRow r)" for r
    by (simp add: lookupEin_def exampleStore_def stripDashSpace_def isSpace_def
          newCsvDataStore_def)
  have revoked: "reinstatementDate (makeIrsRow []) = []"
    and reinstated: "reinstatementDate (makeIrsRow ''2023-01-10'') \<noteq> []"
    by (simp_all add: makeIrsRow_def)
  from IrsRevocationClient_check_classification
         [of "''12-ABC6789''" "exampleStore []" "newCsvDataStore exampleConfig"] malformed
  have a: "IrsRevocationClient_check (exampleStore []) ''12-ABC6789'' =
      \<lparr>irs_found = False, irs_revoked = False,
       irs_detail = ''Invalid EIN format: expected 9 digits, got '' @ dquote @ ''12-ABC6789'' @ dquote,
       irs_revocationDate = None, irs_reinstatementDate = None, irs_legalName = None\<rparr>
   \<and> IrsRevocationClient_check (newCsvDataStore exampleConfig) ''12-ABC6789''
       = IrsRevocationClient_check (exampleStore []) ''12-ABC6789''"
    by blast
  from IrsRevocationClient_check_classification
         [of "''12-3456789''" "newCsvDataStore exampleConfig"] wellformed absent
  have b: "\<not> irs_found (IrsRevocationClient_check (newCsvDataStore exampleConfig) ''12-3456789'')
   \<and> \<not> irs_revoked (IrsRevocationClient_check (newCsvDataStore exampleConfig) ''12-3456789'')"
    by blast
  from IrsRevocationClient_check_classification
         [of "''12-3456789''" "exampleStore []" _ "makeIrsRow []"] wellformed present revoked
  have c: "irs_found (IrsRevocationClient_check (exampleStore []) ''12-3456789'')
   \<and> irs_revoked (IrsRevocationClient_check (exampleStore []) ''12-3456789'')"
    by blast
  from IrsRevocationClient_check_classification
         [of "''12-3456789''" "exampleStore ''2023-01-10''" _ "makeIrsRow ''2023-01-10''"]
       wellformed present reinstated
  have d: "irs_found (IrsRevocationClient_check (exampleStore ''2023-01-10'') ''12-3456789'')
   \<and> \<not> irs_revoked (IrsRevocationClient_check (exampleStore ''2023-01-10'') ''12-3456789'')"
    by blast
  from a b c d show ?thesis by blast
qed

subsection \<open>The report of checkRedFlags\<close>

text \<open>
  C9. Every successful report of \<open>checkRedFlags\<close> is consistent: \<open>clean\<close> holds exactly
  when the list of flags is empty, which is exactly when the recommendation of the
  summary is CLEAN, and \<open>flags_found\<close> is the length of the list of flags.
\<close>

theorem checkRedFlags_report_consistent:
  assumes "checkRedFlags irsClient ofacClient courtClient input = response"
      and "success response"
  shows "\<exists>report. data response = Some report
           \<and> clean report = (report_flags report = [])
           \<and> (report_flags report = []) = (summary_recommendation (summary report) = CLEAN)
           \<and> flags_found (summary report) = length (report_flags report)"
  using assms
  by (auto simp: checkRedFlags_def validationError_def Let_def generateSummary_def
        getRecommendation_def list_ex_iff
      split: if_splits option.splits sum.splits)

theorem checkRedFlags_report_consistent_witness:
  "success (checkRedFlags (exampleStore []) (exampleStore []) None
              \<lparr>input_ein = ''12-3456789'', input_name = ''Acme Inc''\<rparr>)
   \<and> (\<exists>report.
        data (checkRedFlags (exampleStore []) (exampleStore []) None
                \<lparr>input_ein = ''12-3456789'', input_name = ''Acme Inc''\<rparr>) = Some report
        \<and> clean report = (report_flags report = [])
        \<and> (report_flags report = []) = (summary_recommendation (summary report) = CLEAN)
        \<and> flags_found (summary report) = length (report_flags report))"
proof -
  have ok: "success (checkRedFlags (exampleStore []) (exampleStore []) None
                       \<lparr>input_ein = ''12-3456789'', input_name = ''Acme Inc''\<rparr>)"
    by code_simp
  from checkRedFlags_report_consistent [OF refl ok] ok show ?thesis by blast
qed

subsection \<open>The name normalizer\<close>

lemma plainChar_table:
  "list_all (\<lambda>c. stripDiacritic c = c \<and> toLowerChar c = c \<and> asciiLower c = c
                \<and> (isLowerAlnum c \<or> isSpace c))
     (CHR '' '' # ''abcdefghijklmnopqrstuvwxyz0123456789'')"
  by code_simp

lemma mem_ConsI: "c \<in> set xs \<or> c = x \<Longrightarrow> c \<in> set (x # xs)"
  by auto

lemma list_allD: "list_all P xs \<Longrightarrow> c \<in> set xs \<Longrightarrow> P c"
  by (simp add: list_all_iff)

lemma plainChar_fixed:
  assumes "plainChar c"
  shows "stripDiacritic c = c" and "toLowerChar c = c" and "asciiLower c = c"
    and "isLowerAlnum c \<or> isSpace c"
proof -
  from assms have "c \<in> set (CHR '' '' # ''abcdefghijklmnopqrstuvwxyz0123456789'')"
    unfolding plainChar_def isLowerAlnum_def by (rule mem_ConsI)
  from list_allD [OF plainChar_table this]
  show "stripDiacritic c = c" and "toLowerChar c = c" and "asciiLower c = c"
    and "isLowerAlnum c \<or> isSpace c" by blast+
qed

lemma collapsed_Cons:
  "collapsed (c # cs) =
     ((isSpace c \<longrightarrow> c = CHR '' '' \<and> (cs = [] \<or> \<not> isSpace (hd cs))) \<and> collapsed cs)"
  by (cases cs) auto

lemma collapseWhitespace_Nil_iff: "collapseWhitespace s = [] \<longleftrightarrow> s = []"
  by (cases s) auto

lemma hd_collapseWhitespace:
  "s \<noteq> [] \<Longrightarrow> \<not> isSpace (hd s) \<Longrightarrow> hd (collapseWhitespace s) = hd s"
  by (cases s) auto

lemma dropWhile_head: "dropWhile P xs = [] \<or> \<not> P (hd (dropWhile P xs))"
  by (metis hd_dropWhile)

lemma collapsed_collapseWhitespace: "collapsed (collapseWhitespace s)"
proof (induction s rule: collapseWhitespace.induct)
  case 1
  show ?case by simp
next
  case (2 c cs)
  show ?case
  proof (cases "isSpace c")
    case True
    let ?r = "dropWhile isSpace cs"
    from True 2 have ih: "collapsed (collapseWhitespace ?r)" by simp
    have "collapseWhitespace ?r = [] \<or> \<not> isSpace (hd (collapseWhitespace ?r))"
    proof (cases "?r = []")
      case True
      then show ?thesis by (simp only: collapseWhitespace.simps simp_thms)
    next
      case False
      with dropWhile_head [of isSpace cs] have "\<not> isSpace (hd ?r)" by blast
      with False show ?thesis by (simp only: hd_collapseWhitespace simp_thms)
    qed
    with True ih show ?thesis
      by (simp add: collapsed_Cons del: collapsed.simps)
  next
    case False
    with 2 show ?thesis by (simp add: collapsed_Cons del: collapsed.simps)
  qed
qed

lemma dropWhile_id: "xs = [] \<or> \<not> P (hd xs) \<Longrightarrow> dropWhile P xs = xs"
  by (cases xs) auto

lemma collapseWhitespace_collapsed: "collapsed s \<Longrightarrow> collapseWhitespace s = s"
proof (induction s)
  case Nil
  show ?case by simp
next
  case (Cons c cs)
  then show ?case
    by (auto simp: collapsed_Cons dropWhile_id simp del: collapsed.simps)
qed

lemma collapsed_append: "collapsed (xs @ ys) \<Longrightarrow> collapsed xs \<and> collapsed ys"
proof (induction xs)
  case Nil
  then show ?case by simp
next
  case (Cons c xs)
  then show ?case
    by (cases xs) (auto simp: collapsed_Cons simp del: collapsed.simps)
qed

lemma collapsed_space: "collapsed s \<Longrightarrow> c \<in> set s \<Longrightarrow> isSpace c \<Longrightarrow> c = CHR '' ''"
  by (induction s) (auto simp: collapsed_Cons simp del: collapsed.simps)

lemma trim_decomp: "\<exists>a b. s = a @ trim s @ b"
proof -
  let ?u = "dropWhile isSpace s"
  have "s = takeWhile isSpace s @ ?u" by simp
  moreover have "?u = trim s @ rev (takeWhile isSpace (rev ?u))"
    unfolding trim_def
    by (metis rev_append rev_rev_ident takeWhile_dropWhile_id)
  ultimately show ?thesis by metis
qed

lemma collapsed_trim: "collapsed s \<Longrightarrow> collapsed (trim s)"
  using trim_decomp [of s] by (metis collapsed_append)

lemma set_trim: "set (trim s) \<subseteq> set s"
  using trim_decomp [of s] by (metis Un_upper1 Un_upper2 set_append subset_trans)

lemma trim_ends: "trim s = [] \<or> (\<not> isSpace (hd (trim s)) \<and> \<not> isSpace (last (trim s)))"
proof (cases "trim s = []")
  case True
  then show ?thesis by simp
next
  case False
  let ?u = "dropWhile isSpace s"
  let ?v = "dropWhile isSpace (rev ?u)"
  from False have v: "?v \<noteq> []" by (simp add: trim_def)
  then have "\<not> isSpace (hd ?v)" by (metis hd_dropWhile)
  then have l: "\<not> isSpace (last (trim s))" using v by (simp add: trim_def last_rev)
  have u: "?u \<noteq> []"
  proof
    assume "?u = []"
    then have "?v = []" by (simp only: rev.simps dropWhile.simps)
    with v show False by blast
  qed
  then have hu: "\<not> isSpace (hd ?u)" by (metis hd_dropWhile)
  have "?u = trim s @ rev (takeWhile isSpace (rev ?u))"
    unfolding trim_def
    by (metis rev_append rev_rev_ident takeWhile_dropWhile_id)
  with False have "hd ?u = hd (trim s)" by (metis hd_append2)
  with hu l show ?thesis by simp
qed

lemma trim_fixed: "s = [] \<or> (\<not> isSpace (hd s) \<and> \<not> isSpace (last s)) \<Longrightarrow> trim s = s"
proof (cases "s = []")
  case True
  then show ?thesis by (simp add: trim_def)
next
  case False
  assume "s = [] \<or> (\<not> isSpace (hd s) \<and> \<not> isSpace (last s))"
  with False have h: "\<not> isSpace (hd s)" and l: "\<not> isSpace (last s)" by auto
  from False h have a: "dropWhile isSpace s = s" by (simp add: dropWhile_id)
  from False l have "dropWhile isSpace (rev s) = rev s"
    by (simp add: dropWhile_id hd_rev)
  with a show ?thesis by (simp add: trim_def)
qed

lemma set_collapseWhitespace: "set (collapseWhitespace s) \<subseteq> insert (CHR '' '') (set s)"
proof (induction s rule: collapseWhitespace.induct)
  case 1
  show ?case by simp
next
  case (2 c cs)
  show ?case
  proof (cases "isSpace c")
    case True
    with 2 have "set (collapseWhitespace (dropWhile isSpace cs))
        \<subseteq> insert (CHR '' '') (set (dropWhile isSpace cs))" by simp
    moreover have "set (dropWhile isSpace cs) \<subseteq> set cs" by (meson set_dropWhileD subsetI)
    ultimately show ?thesis using True by auto
  next
    case False
    with 2 show ?thesis by auto
  qed
qed

lemma set_stripTrailingSuffix: "set (stripTrailingSuffix s) \<subseteq> set s"
  by (induction s) auto

lemma set_suffixLoop: "set (suffixLoop n s) \<subseteq> set s"
proof (induction n s rule: suffixLoop.induct)
  case (1 iterations normalized)
  show ?case
  proof (cases "stripTrailingSuffix normalized \<noteq> normalized \<and> iterations + 1 < 10")
    case True
    with 1 have "set (suffixLoop (iterations + 1) (stripTrailingSuffix normalized))
        \<subseteq> set (stripTrailingSuffix normalized)" by simp
    with True show ?thesis
      using set_stripTrailingSuffix [of normalized]
      by (subst suffixLoop.simps) (auto simp: Let_def)
  next
    case False
    then show ?thesis
      using set_stripTrailingSuffix [of normalized]
      by (subst suffixLoop.simps) (auto simp: Let_def)
  qed
qed

lemma set_stripThePrefix: "set (stripThePrefix s) \<subseteq> set s"
proof (induction s rule: stripThePrefix.induct)
  case (1 a b c d rest)
  have "set (dropWhile isSpace rest) \<subseteq> set rest" by (meson set_dropWhileD subsetI)
  then show ?case by auto
qed auto


lemma stripTrailingSuffix_changes:
  "stripTrailingSuffix s \<noteq> s \<Longrightarrow>
     \<exists>p c r. s = p @ c # r \<and> isSpace c \<and> isOrgSuffix (dropWhile isSpace r)"
proof (induction s)
  case Nil
  then show ?case by simp
next
  case (Cons c cs)
  show ?case
  proof (cases "isSpace c \<and> isOrgSuffix (dropWhile isSpace cs)")
    case True
    then have "c # cs = [] @ c # cs \<and> isSpace c \<and> isOrgSuffix (dropWhile isSpace cs)" by simp
    then show ?thesis by blast
  next
    case False
    with Cons.prems have "stripTrailingSuffix cs \<noteq> cs" by auto
    from Cons.IH [OF this] obtain p d r
      where "cs = p @ d # r" and "isSpace d" and "isOrgSuffix (dropWhile isSpace r)" by blast
    then have "c # cs = (c # p) @ d # r \<and> isSpace d \<and> isOrgSuffix (dropWhile isSpace r)" by simp
    then show ?thesis by blast
  qed
qed

lemma stripTrailingSuffix_fixed:
  assumes plain: "\<forall>c \<in> set t. plainChar c" and coll: "collapsed t"
    and nosuf: "\<forall>w \<in> set ORG_SUFFIXES. \<not> suffix (CHR '' '' # w) t"
  shows "stripTrailingSuffix t = t"
proof (rule ccontr)
  assume "stripTrailingSuffix t \<noteq> t"
  from stripTrailingSuffix_changes [OF this] obtain p c r
    where t: "t = p @ c # r" and c: "isSpace c" and r: "isOrgSuffix (dropWhile isSpace r)"
    by blast
  from coll t have "collapsed (c # r)" using collapsed_append by blast
  with c have csp: "c = CHR '' ''" and rr: "r = [] \<or> \<not> isSpace (hd r)"
    by (simp_all add: collapsed_Cons del: collapsed.simps)
  from rr have "dropWhile isSpace r = r" by (rule dropWhile_id)
  with r have "map asciiLower r \<in> set ORG_SUFFIXES" by (simp add: isOrgSuffix_def)
  moreover from plain t have "\<forall>x \<in> set r. asciiLower x = x"
    by (auto simp: plainChar_fixed)
  then have "map asciiLower r = r" by (simp add: map_idI)
  ultimately have "r \<in> set ORG_SUFFIXES" by simp
  moreover from t csp have "suffix (CHR '' '' # r) t" by (simp add: suffix_def)
  ultimately show False using nosuf by blast
qed

lemma stripThePrefix_fixed:
  assumes plain: "\<forall>c \<in> set t. plainChar c" and nopre: "\<not> prefix ''the '' t"
  shows "stripThePrefix t = t"
proof (cases t rule: stripThePrefix.cases)
  case (1 a b c d rest)
  show ?thesis
  proof (cases "[a, b, c] = ''the'' \<and> isSpace d")
    case True
    from plain 1 have "plainChar d" by simp
    with True have "d = CHR '' ''"
      by (auto simp: plainChar_def isLowerAlnum_def isSpace_def)
    with True 1 have "t = ''the '' @ rest" by simp
    then have "prefix ''the '' t" by (simp only: prefixI)
    with nopre show ?thesis by blast
  next
    case False
    with 1 show ?thesis by auto
  qed
qed simp_all

lemma suffixLoop_fixed: "stripTrailingSuffix t = t \<Longrightarrow> suffixLoop n t = t"
  by (subst suffixLoop.simps) (simp add: Let_def)

text \<open>The string after the first five steps has letters, digits and white space only.\<close>

lemma normalizeName_shape:
  "(\<forall>c \<in> set (normalizeName s). plainChar c) \<and> collapsed (normalizeName s)
     \<and> trim (normalizeName s) = normalizeName s"
proof -
  let ?u = "suffixLoop 0 (stripThePrefix
              (filter (\<lambda>c. isLowerAlnum c \<or> isSpace c) (toLowerCase (stripDiacritics s))))"
  have n: "normalizeName s = trim (collapseWhitespace ?u)"
    by (simp add: normalizeName_def Let_def)
  have u: "\<forall>c \<in> set ?u. isLowerAlnum c \<or> isSpace c"
    using set_suffixLoop set_stripThePrefix by fastforce
  have coll: "collapsed (normalizeName s)"
    unfolding n by (rule collapsed_trim) (rule collapsed_collapseWhitespace)
  have "\<forall>c \<in> set (normalizeName s). plainChar c"
  proof
    fix c assume c: "c \<in> set (normalizeName s)"
    then have "c \<in> set (collapseWhitespace ?u)" unfolding n using set_trim by blast
    then have "c = CHR '' '' \<or> c \<in> set ?u" using set_collapseWhitespace by blast
    with u have "c = CHR '' '' \<or> isLowerAlnum c \<or> isSpace c" by blast
    moreover have "isSpace c \<Longrightarrow> c = CHR '' ''" using collapsed_space [OF coll c] .
    ultimately show "plainChar c" by (auto simp: plainChar_def)
  qed
  moreover have "trim (normalizeName s) = normalizeName s"
    unfolding n by (rule trim_fixed) (rule trim_ends)
  ultimately show ?thesis using coll by blast
qed

lemma normalizeName_second_pass_fixed:
  assumes "\<not> prefix ''the '' (normalizeName s)"
      and "\<forall>w \<in> set ORG_SUFFIXES. \<not> suffix (CHR '' '' # w) (normalizeName s)"
  shows "normalizeName (normalizeName s) = normalizeName s"
proof -
  let ?t = "normalizeName s"
  from normalizeName_shape [of s]
  have plain: "\<forall>c \<in> set ?t. plainChar c" and coll: "collapsed ?t" and tr: "trim ?t = ?t"
    by blast+
  from plain have 1: "stripDiacritics ?t = ?t"
    by (simp add: stripDiacritics_def map_idI plainChar_fixed)
  from plain have 2: "toLowerCase ?t = ?t"
    by (simp add: toLowerCase_def map_idI plainChar_fixed)
  from plain have 3: "filter (\<lambda>c. isLowerAlnum c \<or> isSpace c) ?t = ?t"
    by (simp add: plainChar_fixed)
  from plain assms(1) have 4: "stripThePrefix ?t = ?t" by (rule stripThePrefix_fixed)
  from plain coll assms(2) have "stripTrailingSuffix ?t = ?t" by (rule stripTrailingSuffix_fixed)
  then have 5: "suffixLoop 0 ?t = ?t" by (rule suffixLoop_fixed)
  from coll have 6: "collapseWhitespace ?t = ?t" by (rule collapseWhitespace_collapsed)
  have "normalizeName ?t = trim (collapseWhitespace (suffixLoop 0 (stripThePrefix
          (filter (\<lambda>c. isLowerAlnum c \<or> isSpace c) (toLowerCase (stripDiacritics ?t))))))"
    by (simp add: normalizeName_def Let_def)
  also have "\<dots> = ?t" by (simp only: 1 2 3 4 5 6 tr)
  finally show ?thesis .
qed

lemma length_stripTrailingSuffix: "length (stripTrailingSuffix s) \<le> length s"
  by (induction s) auto

lemma length_suffixLoop_strip: "length (suffixLoop n s) \<le> length (stripTrailingSuffix s)"
proof (induction n s rule: suffixLoop.induct)
  case (1 iterations normalized)
  show ?case
  proof (cases "stripTrailingSuffix normalized \<noteq> normalized \<and> iterations + 1 < 10")
    case True
    with 1 have "length (suffixLoop (iterations + 1) (stripTrailingSuffix normalized))
        \<le> length (stripTrailingSuffix (stripTrailingSuffix normalized))" by simp
    also have "\<dots> \<le> length (stripTrailingSuffix normalized)" by (rule length_stripTrailingSuffix)
    finally show ?thesis using True by (subst suffixLoop.simps) (simp add: Let_def)
  next
    case False
    then show ?thesis by (subst suffixLoop.simps) (auto simp: Let_def)
  qed
qed

lemma length_collapseWhitespace: "length (collapseWhitespace s) \<le> length s"
proof (induction s rule: collapseWhitespace.induct)
  case 1
  show ?case by simp
next
  case (2 c cs)
  show ?case
  proof (cases "isSpace c")
    case True
    with 2 have "length (collapseWhitespace (dropWhile isSpace cs)) \<le> length (dropWhile isSpace cs)"
      by simp
    also have "\<dots> \<le> length cs" by (rule length_dropWhile_le)
    finally show ?thesis using True by simp
  next
    case False
    with 2 show ?thesis by simp
  qed
qed

lemma length_trim: "length (trim s) \<le> length s"
proof -
  from trim_decomp [of s] obtain a b where "s = a @ trim s @ b" by blast
  then have "length s = length a + length (trim s) + length b" by (metis length_append add.assoc)
  then show ?thesis by simp
qed

lemma stripTrailingSuffix_hit:
  "isSpace c \<Longrightarrow> isOrgSuffix (dropWhile isSpace r) \<Longrightarrow>
     length (stripTrailingSuffix (p @ c # r)) \<le> length p"
  by (induction p) auto

lemma ORG_SUFFIXES_match: "list_all (\<lambda>w. isOrgSuffix (dropWhile isSpace w)) ORG_SUFFIXES"
  by code_simp

lemma normalizeName_length:
  "length (normalizeName s) \<le> length (suffixLoop 0 (stripThePrefix
      (filter (\<lambda>c. isLowerAlnum c \<or> isSpace c) (toLowerCase (stripDiacritics s)))))"
  unfolding normalizeName_def Let_def
  using length_trim length_collapseWhitespace order_trans by blast

lemma normalizeName_second_pass_shorter:
  assumes "prefix ''the '' (normalizeName s)
           \<or> (\<exists>w \<in> set ORG_SUFFIXES. suffix (CHR '' '' # w) (normalizeName s))"
  shows "length (normalizeName (normalizeName s)) < length (normalizeName s)"
proof -
  let ?t = "normalizeName s"
  from normalizeName_shape [of s]
  have plain: "\<forall>c \<in> set ?t. plainChar c" by blast
  from plain have 1: "stripDiacritics ?t = ?t"
    by (simp add: stripDiacritics_def map_idI plainChar_fixed)
  from plain have 2: "toLowerCase ?t = ?t"
    by (simp add: toLowerCase_def map_idI plainChar_fixed)
  from plain have 3: "filter (\<lambda>c. isLowerAlnum c \<or> isSpace c) ?t = ?t"
    by (simp add: plainChar_fixed)
  have bound: "length (normalizeName ?t) \<le> length (stripTrailingSuffix (stripThePrefix ?t))"
    using normalizeName_length [of ?t] length_suffixLoop_strip [of 0 "stripThePrefix ?t"]
    by (simp only: 1 2 3)
  show ?thesis
  proof (cases "prefix ''the '' ?t")
    case True
    then obtain r where t: "?t = ''the '' @ r" by (auto simp: prefix_def)
    have "stripThePrefix (''the '' @ r) = dropWhile isSpace r" by (simp add: isSpace_def)
    then have "length (stripThePrefix ?t) \<le> length r"
      by (simp only: t length_dropWhile_le)
    moreover have "length r < length ?t" using arg_cong [OF t, of length] by simp
    ultimately show ?thesis
      using bound length_stripTrailingSuffix [of "stripThePrefix ?t"] by linarith
  next
    case False
    with assms obtain w where w: "w \<in> set ORG_SUFFIXES" and suf: "suffix (CHR '' '' # w) ?t"
      by blast
    from suf obtain p where t: "?t = p @ CHR '' '' # w" by (auto simp: suffix_def)
    from plain False have 4: "stripThePrefix ?t = ?t" by (rule stripThePrefix_fixed)
    have sp: "isSpace (CHR '' '')" by (simp add: isSpace_def)
    from w ORG_SUFFIXES_match have "isOrgSuffix (dropWhile isSpace w)"
      by (simp add: list_all_iff)
    with sp have "length (stripTrailingSuffix (p @ CHR '' '' # w)) \<le> length p"
      by (rule stripTrailingSuffix_hit)
    then have "length (stripTrailingSuffix ?t) \<le> length p" by (simp only: t [symmetric])
    moreover have "length p < length ?t" using arg_cong [OF t, of length] by simp
    moreover from bound have "length (normalizeName ?t) \<le> length (stripTrailingSuffix ?t)"
      by (simp only: 4)
    ultimately show ?thesis by linarith
  qed
qed

text \<open>
  C3, as the code has it. \<open>normalizeName\<close> removes one leading "the" and at most ten
  trailing suffixes, and it trims after it has looked for them. A second pass changes
  nothing exactly when the first result neither starts with "the " nor ends with a space
  and one of the organizational suffixes: for every string \<open>s\<close> with such a result,
  \<open>normalizeName (normalizeName s) = normalizeName s\<close>, and for every other string the
  second pass gives a shorter result.
\<close>

theorem normalizeName_idempotent_iff:
  "normalizeName (normalizeName s) = normalizeName s \<longleftrightarrow>
     \<not> prefix ''the '' (normalizeName s)
     \<and> (\<forall>w \<in> set ORG_SUFFIXES. \<not> suffix (CHR '' '' # w) (normalizeName s))"
proof
  assume same: "normalizeName (normalizeName s) = normalizeName s"
  show "\<not> prefix ''the '' (normalizeName s)
     \<and> (\<forall>w \<in> set ORG_SUFFIXES. \<not> suffix (CHR '' '' # w) (normalizeName s))"
  proof (rule ccontr)
    assume "\<not> (\<not> prefix ''the '' (normalizeName s)
     \<and> (\<forall>w \<in> set ORG_SUFFIXES. \<not> suffix (CHR '' '' # w) (normalizeName s)))"
    then have "prefix ''the '' (normalizeName s)
           \<or> (\<exists>w \<in> set ORG_SUFFIXES. suffix (CHR '' '' # w) (normalizeName s))" by blast
    from normalizeName_second_pass_shorter [OF this] same show False by simp
  qed
next
  assume "\<not> prefix ''the '' (normalizeName s)
     \<and> (\<forall>w \<in> set ORG_SUFFIXES. \<not> suffix (CHR '' '' # w) (normalizeName s))"
  then show "normalizeName (normalizeName s) = normalizeName s"
    using normalizeName_second_pass_fixed by blast
qed

theorem normalizeName_idempotent_iff_witness:
  "\<not> prefix ''the '' (normalizeName ''Acme Corp Inc'')
   \<and> list_all (\<lambda>w. \<not> suffix (CHR '' '' # w) (normalizeName ''Acme Corp Inc'')) ORG_SUFFIXES
   \<and> normalizeName ''Acme Corp Inc'' = ''acme''
   \<and> normalizeName (normalizeName ''Acme Corp Inc'') = normalizeName ''Acme Corp Inc''"
proof -
  have n: "normalizeName ''Acme Corp Inc'' = ''acme''" by code_simp
  have a: "\<not> prefix ''the '' (normalizeName ''Acme Corp Inc'')"
    unfolding n by simp
  have b: "list_all (\<lambda>w. \<not> suffix (CHR '' '' # w) (normalizeName ''Acme Corp Inc'')) ORG_SUFFIXES"
    unfolding n by (simp add: ORG_SUFFIXES_def suffix_to_prefix)
  from b have b': "\<forall>w \<in> set ORG_SUFFIXES. \<not> suffix (CHR '' '' # w) (normalizeName ''Acme Corp Inc'')"
    by (simp only: list_all_iff)
  from normalizeName_idempotent_iff [of "''Acme Corp Inc''"] a b'
  have "normalizeName (normalizeName ''Acme Corp Inc'') = normalizeName ''Acme Corp Inc''"
    by blast
  with a b n show ?thesis by blast
qed

text \<open>
  C3 as the claim states it fails: of two leading "the" the first pass removes one and
  the second pass the other; of eleven trailing suffixes the first pass removes ten and
  the second pass the last.
\<close>

theorem normalizeName_idempotent_counterexample:
  "normalizeName ''the the x'' = ''the x''
   \<and> normalizeName (normalizeName ''the the x'') = ''x''
   \<and> normalizeName (normalizeName ''the the x'') \<noteq> normalizeName ''the the x''
   \<and> normalizeName ''a inc inc inc inc inc inc inc inc inc inc inc'' = ''a inc''
   \<and> normalizeName (normalizeName ''a inc inc inc inc inc inc inc inc inc inc inc'') = ''a''"
  by code_simp

subsection \<open>The name map of buildOfacNameMap\<close>

lemma sequenceAt_update:
  "sequenceAt (AList.update k v m) k' = (if k' = k then v else sequenceAt m k')"
  by (simp add: sequenceAt_def update_conv')

lemma sequenceAt_Nil [simp]: "sequenceAt [] k = []"
  by (simp add: sequenceAt_def)

lemma indexSdnRows_sequence:
  "sequenceAt (fst (indexSdnRows rows m b)) k =
     sequenceAt m k @ (if k = [] then [] else filter (\<lambda>r. normalizeName (sdn_name r) = k) rows)"
proof (induction rows arbitrary: m b)
  case Nil
  then show ?case by simp
next
  case (Cons row rows)
  show ?case
    by (simp add: Cons.IH Let_def sequenceAt_update) (simp add: sequenceAt_def)
qed

lemma indexAltRows_distinct:
  "distinct (map entNum (sequenceAt m k)) \<Longrightarrow>
     distinct (map entNum (sequenceAt (indexAltRows alts b m) k))"
proof (induction alts arbitrary: m)
  case Nil
  then show ?case by simp
next
  case (Cons alt alts)
  show ?case
  proof (cases "map_of b (alt_entNum alt)")
    case None
    with Cons show ?thesis by simp
  next
    case (Some sdnRow)
    let ?n = "normalizeName (altName alt)"
    let ?e = "sequenceAt m ?n"
    let ?e' = "if \<not> list_ex (\<lambda>r. entNum r = entNum sdnRow) ?e then ?e @ [sdnRow] else ?e"
    let ?m' = "if ?n \<noteq> [] then AList.update ?n ?e' m else m"
    have step: "indexAltRows (alt # alts) b m = indexAltRows alts b ?m'"
      using Some by (simp add: Let_def sequenceAt_def)
    have "distinct (map entNum (sequenceAt ?m' k))"
      using Cons.prems by (auto simp: sequenceAt_update list_ex_iff)
    from Cons.IH [OF this] show ?thesis by (simp only: step)
  qed
qed

lemma buildOfacNameMap_distinct:
  assumes "distinct (map entNum (filter (\<lambda>r. normalizeName (sdn_name r) = key) sdnRows))"
  shows "distinct (map entNum (sequenceAt (buildOfacNameMap sdnRows altRows) key))"
proof -
  obtain m b where ib: "indexSdnRows sdnRows [] [] = (m, b)" by (cases "indexSdnRows sdnRows [] []")
  have "sequenceAt m key = (if key = [] then [] else filter (\<lambda>r. normalizeName (sdn_name r) = key) sdnRows)"
    using indexSdnRows_sequence [of sdnRows "[]" "[]" key] ib by simp
  with assms have "distinct (map entNum (sequenceAt m key))" by simp
  then have "distinct (map entNum (sequenceAt (indexAltRows altRows b m) key))"
    by (rule indexAltRows_distinct)
  with ib show ?thesis by (simp add: buildOfacNameMap_def)
qed

text \<open>
  C8, as the code has it. The loop over the aliases adds a row to the sequence of a key
  only when no row of the sequence has its entity number; the loop over the primary rows
  adds every row. So the sequence of a key has no two rows with the same entity number
  whenever the primary rows whose normalized name is this key have different entity
  numbers, as they have when the entity number is a key of the primary list.
\<close>

theorem buildOfacNameMap_no_duplicate_entNum:
  assumes "distinct (map entNum (filter (\<lambda>r. normalizeName (sdn_name r) = key) sdnRows))"
      and "map_of (buildOfacNameMap sdnRows altRows) key = Some rows"
  shows "distinct (map entNum rows)"
  using buildOfacNameMap_distinct [OF assms(1), of altRows] assms(2)
  by (simp add: sequenceAt_def)

theorem buildOfacNameMap_no_duplicate_entNum_witness:
  "distinct (map entNum (filter (\<lambda>r. normalizeName (sdn_name r) = ''acme'')
      [makeOfacRow ''111'' ''Acme Inc'', makeOfacRow ''222'' ''ACME Corp'']))
   \<and> map_of (buildOfacNameMap
        [makeOfacRow ''111'' ''Acme Inc'', makeOfacRow ''222'' ''ACME Corp'']
        [makeAltRow ''111'' ''Acme'', makeAltRow ''222'' ''acme'', makeAltRow ''111'' ''ACME LLC''])
      ''acme''
     = Some [makeOfacRow ''111'' ''Acme Inc'', makeOfacRow ''222'' ''ACME Corp'']
   \<and> distinct (map entNum [makeOfacRow ''111'' ''Acme Inc'', makeOfacRow ''222'' ''ACME Corp''])"
proof -
  have a: "distinct (map entNum (filter (\<lambda>r. normalizeName (sdn_name r) = ''acme'')
      [makeOfacRow ''111'' ''Acme Inc'', makeOfacRow ''222'' ''ACME Corp'']))"
    by code_simp
  have b: "map_of (buildOfacNameMap
        [makeOfacRow ''111'' ''Acme Inc'', makeOfacRow ''222'' ''ACME Corp'']
        [makeAltRow ''111'' ''Acme'', makeAltRow ''222'' ''acme'', makeAltRow ''111'' ''ACME LLC''])
      ''acme''
     = Some [makeOfacRow ''111'' ''Acme Inc'', makeOfacRow ''222'' ''ACME Corp'']"
    by code_simp
  from buildOfacNameMap_no_duplicate_entNum [OF a b] a b show ?thesis by blast
qed

text \<open>
  C8 as the claim states it fails: a primary list with the same row twice gives a
  sequence with two rows of one entity number.
\<close>

theorem buildOfacNameMap_duplicate_counterexample:
  "map_of (buildOfacNameMap
      [makeOfacRow ''12345'' ''BAD ACTOR FOUNDATION'', makeOfacRow ''12345'' ''BAD ACTOR FOUNDATION'']
      [])
     ''bad actor foundation''
     = Some [makeOfacRow ''12345'' ''BAD ACTOR FOUNDATION'', makeOfacRow ''12345'' ''BAD ACTOR FOUNDATION'']
   \<and> \<not> distinct (map entNum
        [makeOfacRow ''12345'' ''BAD ACTOR FOUNDATION'', makeOfacRow ''12345'' ''BAD ACTOR FOUNDATION''])"
  by code_simp

lemma indexSdnRows_no_empty_key:
  "map_of m [] = None \<Longrightarrow> map_of (fst (indexSdnRows rows m b)) [] = None"
  by (induction rows arbitrary: m b) (auto simp: Let_def update_conv')

lemma indexAltRows_no_empty_key:
  "map_of m [] = None \<Longrightarrow> map_of (indexAltRows alts b m) [] = None"
  by (induction alts arbitrary: m) (auto simp: Let_def update_conv' split: option.splits)

lemma buildOfacNameMap_no_empty_key: "map_of (buildOfacNameMap sdnRows altRows) [] = None"
proof -
  obtain m b where ib: "indexSdnRows sdnRows [] [] = (m, b)" by (cases "indexSdnRows sdnRows [] []")
  have "map_of m [] = None" using indexSdnRows_no_empty_key [of "[]" sdnRows "[]"] ib by simp
  then have "map_of (indexAltRows altRows b m) [] = None" by (rule indexAltRows_no_empty_key)
  with ib show ?thesis by (simp add: buildOfacNameMap_def)
qed

subsection \<open>Downloads below the floor\<close>

text \<open>
  A download that fails after the extracted file is written finds that file in its
  \<open>catch\<close>: the fallback reads what the download has just written.
\<close>

lemma parseIrsFromDisk_cached:
  "irsCsvFile w = Some content \<Longrightarrow>
     parseIrsFromDisk store w = (Inr (), store\<lparr>irsMap := parseIrsCsv content\<rparr>, w)"
  by (subst parseIrsFromDisk.simps) (simp add: Let_def)

lemma downloadAndParseIrs_try_below_floor:
  assumes "irsRemote w = Inr (ZipDirectory files)" and "files \<noteq> []"
    and "uncompressedSize (files ! 0) \<le> MAX_ZIP_SIZE_BYTES"
    and "buffer (files ! 0) = Inr content"
    and "length content \<le> MAX_ZIP_SIZE_BYTES"
    and "length (parseIrsCsv content) < MIN_IRS_ROWS"
  shows "downloadAndParseIrs_try store w manifest =
     (Inl (''IRS data too small: '' @ showNat (length (parseIrsCsv content))
            @ '' rows (expected >= '' @ showNat MIN_IRS_ROWS @ '')''),
      store,
      w\<lparr>clock := clock w + int (downloadMs w),
        irsZipFile := Some (ZipDirectory files),
        irsCsvFile := Some content\<rparr>)"
  using assms by (simp add: downloadAndParseIrs_try_def Let_def)

lemma downloadAndParseIrs_below_floor:
  assumes "irsRemote w = Inr (ZipDirectory files)" and "files \<noteq> []"
    and "uncompressedSize (files ! 0) \<le> MAX_ZIP_SIZE_BYTES"
    and "buffer (files ! 0) = Inr content"
    and "length content \<le> MAX_ZIP_SIZE_BYTES"
    and "length (parseIrsCsv content) < MIN_IRS_ROWS"
  shows "downloadAndParseIrs store w manifest =
     (Inr manifest,
      store\<lparr>irsMap := parseIrsCsv content\<rparr>,
      w\<lparr>clock := clock w + int (downloadMs w),
        irsZipFile := Some (ZipDirectory files),
        irsCsvFile := Some content\<rparr>)"
  by (subst downloadAndParseIrs.simps)
     (simp add: downloadAndParseIrs_try_below_floor [OF assms] parseIrsFromDisk_cached)

lemma parseOfacFromDisk_cached:
  "sdnCsvFile w = Some (CsvRecords sdnRecords) \<Longrightarrow> altCsvFile w = Some (CsvRecords altRecords) \<Longrightarrow>
     parseOfacFromDisk store w =
       (Inr (),
        store\<lparr>ofacNameMap := buildOfacNameMap (parseSdnRecords sdnRecords [])
                                                 (parseAltRecords altRecords [])\<rparr>,
        w)"
  by (subst parseOfacFromDisk.simps) (simp add: Let_def parseSdnCsv_def parseAltCsv_def parse_def)

lemma downloadAndParseOfac_below_floor:
  assumes "sdnRemote w = Inr (CsvRecords sdnRecords)"
    and "altRemote w = Inr (CsvRecords altRecords)"
    and "length (buildOfacNameMap (parseSdnRecords sdnRecords []) (parseAltRecords altRecords []))
           < MIN_OFAC_ENTRIES"
  shows "downloadAndParseOfac store w manifest =
     (Inr manifest,
      store\<lparr>ofacNameMap := buildOfacNameMap (parseSdnRecords sdnRecords [])
                                               (parseAltRecords altRecords [])\<rparr>,
      w\<lparr>clock := clock w + int (downloadMs w),
        sdnCsvFile := Some (CsvRecords sdnRecords),
        altCsvFile := Some (CsvRecords altRecords)\<rparr>)"
  using assms
  by (subst downloadAndParseOfac.simps)
     (simp add: downloadAndParseOfac_try_def Let_def parseSdnCsv_def parseAltCsv_def parse_def
        parseOfacFromDisk_cached)

lemma example_parseIrsCsv: "parseIrsCsv exampleIrsCsv = [(''987654321'', exampleSmallRow)]"
  by code_simp

lemma example_buildOfacNameMap:
  "buildOfacNameMap (parseSdnRecords exampleSdnRecords []) (parseAltRecords exampleAltRecords [])
     = [(''acme'', [exampleAcmeRow]), (''apex'', [exampleAcmeRow])]"
  by code_simp

lemma example_irs_small: "length (parseIrsCsv exampleIrsCsv) < MIN_IRS_ROWS"
  by (simp add: example_parseIrsCsv MIN_IRS_ROWS_def)

lemma example_ofac_small:
  "length (buildOfacNameMap (parseSdnRecords exampleSdnRecords []) (parseAltRecords exampleAltRecords []))
     < MIN_OFAC_ENTRIES"
  by (simp add: example_buildOfacNameMap MIN_OFAC_ENTRIES_def)

lemma example_irs_size: "length exampleIrsCsv = 178"
  by (simp add: exampleIrsCsv_def)

text \<open>
  C1, on the code. The store holds the row of EIN 123456789 and the disk holds the cache
  of this generation. The server answers with an archive of one row, below the floor
  \<open>MIN_IRS_ROWS\<close>. \<open>downloadAndParseIrs\<close> writes the extracted file over the cache before
  it counts the rows, rejects the count, and then loads the file it has written: it
  returns without an error, and the generation it publishes is the one row of the
  rejected download.
\<close>

theorem downloadAndParseIrs_below_floor_published:
  "parseIrsCsv exampleCachedCsv = irsMap (exampleStore [])
   \<and> irsCsvFile exampleCachedWorld = Some exampleCachedCsv
   \<and> length (parseIrsCsv exampleIrsCsv) = 1
   \<and> downloadAndParseIrs (exampleStore []) exampleCachedWorld (loadManifest exampleCachedWorld) =
       (Inr (loadManifest exampleCachedWorld),
        (exampleStore [])\<lparr>irsMap := [(''987654321'', exampleSmallRow)]\<rparr>,
        exampleCachedWorld
          \<lparr>clock := 1700000001500,
           irsZipFile := Some (ZipDirectory [\<lparr>uncompressedSize = 178, buffer = Inr exampleIrsCsv\<rparr>]),
           irsCsvFile := Some exampleIrsCsv\<rparr>)"
proof -
  have cached: "parseIrsCsv exampleCachedCsv = irsMap (exampleStore [])" by code_simp
  have "downloadAndParseIrs (exampleStore []) exampleCachedWorld (loadManifest exampleCachedWorld) =
       (Inr (loadManifest exampleCachedWorld),
        (exampleStore [])\<lparr>irsMap := parseIrsCsv exampleIrsCsv\<rparr>,
        exampleCachedWorld
          \<lparr>clock := clock exampleCachedWorld + int (downloadMs exampleCachedWorld),
           irsZipFile := Some (ZipDirectory [\<lparr>uncompressedSize = 178, buffer = Inr exampleIrsCsv\<rparr>]),
           irsCsvFile := Some exampleIrsCsv\<rparr>)"
    by (rule downloadAndParseIrs_below_floor)
       (simp_all add: exampleCachedWorld_def exampleWorld_def MAX_ZIP_SIZE_BYTES_def
          example_irs_size example_irs_small)
  then show ?thesis
    using cached by (simp add: example_parseIrsCsv exampleCachedWorld_def exampleWorld_def)
qed

subsection \<open>The stores a program can hold\<close>

text \<open>
The operations on the IRS list leave the name map as it is.
\<close>

lemma downloadAndParseIrs_try_ofacNameMap:
  "ofacNameMap (fst (snd (downloadAndParseIrs_try store w manifest))) = ofacNameMap store"
  by (simp add: downloadAndParseIrs_try_def Let_def split: sum.splits ZipFile.splits)

lemma parseIrsFromDisk_cached_ofacNameMap:
  "irsCsvFile w \<noteq> None \<Longrightarrow> ofacNameMap (fst (snd (parseIrsFromDisk store w))) = ofacNameMap store"
  by (subst parseIrsFromDisk.simps) (auto simp: Let_def)

lemma downloadAndParseIrs_ofacNameMap:
  "ofacNameMap (fst (snd (downloadAndParseIrs store w manifest))) = ofacNameMap store"
proof -
  obtain r s v where t: "downloadAndParseIrs_try store w manifest = (r, s, v)"
    by (cases "downloadAndParseIrs_try store w manifest")
  with downloadAndParseIrs_try_ofacNameMap [of store w manifest]
  have s: "ofacNameMap s = ofacNameMap store" by simp
  show ?thesis
  proof (cases r)
    case (Inr m)
    with t s show ?thesis by (subst downloadAndParseIrs.simps) simp
  next
    case (Inl msg)
    show ?thesis
    proof (cases "irsCsvFile v \<noteq> None")
      case True
      from parseIrsFromDisk_cached_ofacNameMap [OF True, of s] s
      have "ofacNameMap (fst (snd (parseIrsFromDisk s v))) = ofacNameMap store" by simp
      with t Inl True show ?thesis
        by (subst downloadAndParseIrs.simps) (auto split: prod.splits sum.splits)
    next
      case False
      with t Inl s show ?thesis by (subst downloadAndParseIrs.simps) simp
    qed
  qed
qed

lemma parseIrsFromDisk_ofacNameMap:
  "ofacNameMap (fst (snd (parseIrsFromDisk store w))) = ofacNameMap store"
proof (cases "irsCsvFile w")
  case None
  with downloadAndParseIrs_ofacNameMap [of store w "loadManifest w"] show ?thesis
    by (subst parseIrsFromDisk.simps) (auto simp: Let_def split: prod.splits sum.splits)
next
  case (Some content)
  then show ?thesis by (simp add: parseIrsFromDisk_cached_ofacNameMap)
qed

text \<open>
The operations on the OFAC lists publish name maps that \<open>buildOfacNameMap\<close> has built.
\<close>

lemma downloadAndParseOfac_try_noEmptyKey:
  "noEmptyKey store \<Longrightarrow> noEmptyKey (fst (snd (downloadAndParseOfac_try store w manifest)))"
  by (simp add: downloadAndParseOfac_try_def Let_def noEmptyKey_def buildOfacNameMap_no_empty_key
      split: sum.splits)

lemma parseOfacFromDisk_cached_noEmptyKey:
  "sdnCsvFile w \<noteq> None \<and> altCsvFile w \<noteq> None \<Longrightarrow> noEmptyKey store \<Longrightarrow>
     noEmptyKey (fst (snd (parseOfacFromDisk store w)))"
  by (subst parseOfacFromDisk.simps)
     (auto simp: Let_def noEmptyKey_def buildOfacNameMap_no_empty_key split: sum.splits)

lemma downloadAndParseOfac_noEmptyKey:
  assumes "noEmptyKey store"
  shows "noEmptyKey (fst (snd (downloadAndParseOfac store w manifest)))"
proof -
  obtain r s v where t: "downloadAndParseOfac_try store w manifest = (r, s, v)"
    by (cases "downloadAndParseOfac_try store w manifest")
  with downloadAndParseOfac_try_noEmptyKey [OF assms, of w manifest]
  have s: "noEmptyKey s" by simp
  show ?thesis
  proof (cases r)
    case (Inr m)
    with t s show ?thesis by (subst downloadAndParseOfac.simps) simp
  next
    case (Inl msg)
    show ?thesis
    proof (cases "sdnCsvFile v \<noteq> None \<and> altCsvFile v \<noteq> None")
      case True
      from parseOfacFromDisk_cached_noEmptyKey [OF True s]
      have "noEmptyKey (fst (snd (parseOfacFromDisk s v)))" .
      with t Inl True show ?thesis
        by (subst downloadAndParseOfac.simps) (auto split: prod.splits sum.splits)
    next
      case False
      with t Inl s show ?thesis by (subst downloadAndParseOfac.simps) auto
    qed
  qed
qed

lemma parseOfacFromDisk_noEmptyKey:
  assumes "noEmptyKey store"
  shows "noEmptyKey (fst (snd (parseOfacFromDisk store w)))"
proof (cases "sdnCsvFile w \<noteq> None \<and> altCsvFile w \<noteq> None")
  case True
  then show ?thesis using assms by (rule parseOfacFromDisk_cached_noEmptyKey)
next
  case False
  with downloadAndParseOfac_noEmptyKey [OF assms, of w "loadManifest w"] show ?thesis
    by (subst parseOfacFromDisk.simps) (auto simp: Let_def split: prod.splits sum.splits)
qed

lemma noEmptyKey_cong: "ofacNameMap s = ofacNameMap store \<Longrightarrow> noEmptyKey s = noEmptyKey store"
  by (simp add: noEmptyKey_def)

lemma refresh_noEmptyKey:
  assumes "noEmptyKey store"
  shows "noEmptyKey (fst (snd (refresh store w source)))"
proof -
  let ?m = "loadManifest w"
  have irs: "noEmptyKey (fst (snd (downloadAndParseIrs store w ?m)))"
    using assms noEmptyKey_cong [OF downloadAndParseIrs_ofacNameMap] by blast
  have ofac: "noEmptyKey s \<Longrightarrow> noEmptyKey (fst (snd (downloadAndParseOfac s v m)))" for s v m
    by (rule downloadAndParseOfac_noEmptyKey)
  show ?thesis
    using assms irs ofac
    by (auto simp: refresh_def Let_def noEmptyKey_def split: prod.splits sum.splits if_splits
        dest!: arg_cong [where f = "\<lambda>x. fst (snd x)"])
qed

lemma initialize_noEmptyKey:
  assumes "noEmptyKey store"
  shows "noEmptyKey (fst (snd (initialize store w)))"
proof -
  let ?m = "loadManifest w"
  have irs: "noEmptyKey (fst (snd (downloadAndParseIrs store w ?m)))"
    using assms noEmptyKey_cong [OF downloadAndParseIrs_ofacNameMap] by blast
  have disk: "noEmptyKey (fst (snd (parseIrsFromDisk store w)))"
    using assms noEmptyKey_cong [OF parseIrsFromDisk_ofacNameMap] by blast
  have ofac: "noEmptyKey s \<Longrightarrow> noEmptyKey (fst (snd (downloadAndParseOfac s v m)))" for s v m
    by (rule downloadAndParseOfac_noEmptyKey)
  have ofacDisk: "noEmptyKey s \<Longrightarrow> noEmptyKey (fst (snd (parseOfacFromDisk s v)))" for s v
    by (rule parseOfacFromDisk_noEmptyKey)
  show ?thesis
    using assms irs disk ofac ofacDisk
    by (auto simp: initialize_def Let_def split: prod.splits sum.splits if_splits
        dest!: arg_cong [where f = "\<lambda>x. fst (snd x)"])
qed

lemma reachable_noEmptyKey: "reachable store \<Longrightarrow> noEmptyKey store"
proof (induction rule: reachable.induct)
  case (created cfg)
  show ?case by (simp add: noEmptyKey_def newCsvDataStore_def)
next
  case (initialized store w result store' w')
  from initialize_noEmptyKey [OF initialized.IH, of w] initialized.hyps(2)
  show ?case by simp
next
  case (refreshed store w source result store' w')
  from refresh_noEmptyKey [OF refreshed.IH, of w source] refreshed.hyps(2)
  show ?case by simp
qed

text \<open>
  A refresh in a world whose servers have the payloads of the example, at any time and
  with anything on the disk, started outside the cooldown.
\<close>

lemma example_refresh:
  assumes "irsRemote w = irsRemote exampleWorld" and "sdnRemote w = sdnRemote exampleWorld"
    and "altRemote w = altRemote exampleWorld"
    and "\<not> clock w - lastRefreshAt store < REFRESH_COOLDOWN_MS"
  shows "refresh store w None =
     (Inr \<lparr>irs_refreshed = True, ofac_refreshed = True\<rparr>,
      store\<lparr>irsMap := [(''987654321'', exampleSmallRow)],
            ofacNameMap := [(''acme'', [exampleAcmeRow]), (''apex'', [exampleAcmeRow])],
            lastRefreshAt := clock w + 2 * int (downloadMs w)\<rparr>,
      w\<lparr>clock := clock w + 2 * int (downloadMs w),
        irsZipFile := Some (ZipDirectory [\<lparr>uncompressedSize = 178, buffer = Inr exampleIrsCsv\<rparr>]),
        irsCsvFile := Some exampleIrsCsv,
        sdnCsvFile := Some (CsvRecords exampleSdnRecords),
        altCsvFile := Some (CsvRecords exampleAltRecords)\<rparr>)"
proof -
  let ?files = "[\<lparr>uncompressedSize = 178, buffer = Inr exampleIrsCsv\<rparr>]"
  let ?w1 = "w\<lparr>clock := clock w + int (downloadMs w),
               irsZipFile := Some (ZipDirectory ?files),
               irsCsvFile := Some exampleIrsCsv\<rparr>"
  have irs: "downloadAndParseIrs store w m =
      (Inr m, store\<lparr>irsMap := parseIrsCsv exampleIrsCsv\<rparr>, ?w1)" for m
    by (rule downloadAndParseIrs_below_floor)
       (simp_all add: assms exampleWorld_def MAX_ZIP_SIZE_BYTES_def example_irs_size example_irs_small)
  have ofac: "downloadAndParseOfac s ?w1 m =
      (Inr m,
       s\<lparr>ofacNameMap := buildOfacNameMap (parseSdnRecords exampleSdnRecords [])
                                           (parseAltRecords exampleAltRecords [])\<rparr>,
       ?w1\<lparr>clock := clock ?w1 + int (downloadMs ?w1),
           sdnCsvFile := Some (CsvRecords exampleSdnRecords),
           altCsvFile := Some (CsvRecords exampleAltRecords)\<rparr>)" for s m
    by (rule downloadAndParseOfac_below_floor)
       (simp_all add: assms exampleWorld_def example_ofac_small)
  show ?thesis
    using assms(4)
    by (simp add: refresh_def Let_def irs ofac example_parseIrsCsv example_buildOfacNameMap)
qed

lemma firstRefresh_value:
  "firstRefresh = (Inr \<lparr>irs_refreshed = True, ofac_refreshed = True\<rparr>,
                   exampleRefreshedStore, exampleRefreshedWorld)"
  unfolding firstRefresh_def
  by (subst example_refresh)
     (simp_all add: exampleWorld_def newCsvDataStore_def REFRESH_COOLDOWN_MS_def
        exampleRefreshedStore_def exampleRefreshedWorld_def)

text \<open>
  Names with an empty normalized form: punctuation only, "the" with white space after it,
  a suffix with white space before it. The word "the" alone and a suffix alone stay as
  they are: the patterns ask for the white space.
\<close>

lemma normalizeName_empty_examples:
  "normalizeName ''!!!'' = [] \<and> normalizeName ''the '' = [] \<and> normalizeName '' inc'' = []
   \<and> normalizeName ''the'' = ''the'' \<and> normalizeName ''inc'' = ''inc''"
  by code_simp

text \<open>
  C10, as the code has it. In every store a program can hold the name map has no entry
  under the empty key, and for every name whose normalized form is the empty string
  (punctuation or white space only, "the" with only white space after it, white space
  and one suffix) \<open>OfacSdnClient.check\<close> returns \<open>found = false\<close> with no match.
\<close>

theorem OfacSdnClient_check_empty_normalized_name:
  assumes "reachable store" and "normalizeName name = []"
  shows "map_of (ofacNameMap store) [] = None
         \<and> OfacSdnClient_check store name =
             \<lparr>ofac_found = False,
              ofac_detail = ''No OFAC SDN matches found (good '' @ emDash @ '' not on sanctions list)'',
              matches = []\<rparr>"
  using reachable_noEmptyKey [OF assms(1)] assms(2)
  by (simp add: noEmptyKey_def OfacSdnClient_check_def lookupName_def Let_def)

theorem OfacSdnClient_check_empty_normalized_name_witness:
  "reachable exampleRefreshedStore
   \<and> normalizeName ''!!!'' = []
   \<and> map_of (ofacNameMap exampleRefreshedStore) [] = None
   \<and> OfacSdnClient_check exampleRefreshedStore ''!!!'' =
         \<lparr>ofac_found = False,
          ofac_detail = ''No OFAC SDN matches found (good '' @ emDash @ '' not on sanctions list)'',
          matches = []\<rparr>"
proof -
  have "refresh (newCsvDataStore exampleConfig) exampleWorld None =
          (Inr \<lparr>irs_refreshed = True, ofac_refreshed = True\<rparr>,
           exampleRefreshedStore, exampleRefreshedWorld)"
    using firstRefresh_value by (simp only: firstRefresh_def)
  with reachable.created [of exampleConfig]
  have r: "reachable exampleRefreshedStore" by (rule reachable.refreshed)
  have n: "normalizeName ''!!!'' = []" by code_simp
  from OfacSdnClient_check_empty_normalized_name [OF r n] r n show ?thesis by blast
qed

lemma example_cached_parseIrsCsv: "parseIrsCsv exampleCachedCsv = [(''123456789'', makeIrsRow [])]"
  by code_simp

lemma example_the_buildOfacNameMap:
  "buildOfacNameMap (parseSdnRecords exampleTheRecords []) [] = ofacNameMap exampleTheStore"
  by code_simp

lemma example_the_initialize:
  "initialize (newCsvDataStore exampleConfig) exampleTheWorld = (Inr (), exampleTheStore, exampleTheWorld)"
proof -
  have irs: "parseIrsFromDisk s exampleTheWorld =
      (Inr (), s\<lparr>irsMap := parseIrsCsv exampleCachedCsv\<rparr>, exampleTheWorld)" for s
    by (rule parseIrsFromDisk_cached) (simp add: exampleTheWorld_def)
  have ofac: "parseOfacFromDisk s exampleTheWorld =
      (Inr (), s\<lparr>ofacNameMap := buildOfacNameMap (parseSdnRecords exampleTheRecords [])
                                                   (parseAltRecords [] [])\<rparr>, exampleTheWorld)" for s
    by (rule parseOfacFromDisk_cached) (simp_all add: exampleTheWorld_def)
  have fresh: "loadManifest exampleTheWorld =
      \<lparr>manifest_irs_revocation = Some \<lparr>irs_downloaded_at = 1699999000000, row_count = 1\<rparr>,
       manifest_ofac_sdn =
         Some \<lparr>ofac_downloaded_at = 1699999000000, sdn_count = 2, alt_count = 0\<rparr>\<rparr>"
    and now: "clock exampleTheWorld = 1700000000000"
    by (simp_all add: loadManifest_def exampleTheWorld_def)
  show ?thesis
    by (simp add: initialize_def Let_def isStale_def fresh now irs ofac newCsvDataStore_def
          exampleConfig_def example_cached_parseIrsCsv example_the_buildOfacNameMap
          exampleTheStore_def)
qed

text \<open>
  C10 as the claim states it fails: the word "the" alone and a suffix alone are among
  its names with an empty normalized form, but \<open>normalizeName\<close> leaves them as they
  are, and in a store whose list has the entities "The The" and "Inc Ltd" the check finds
  a match for each of them.
\<close>

theorem OfacSdnClient_check_the_counterexample:
  "reachable exampleTheStore
   \<and> normalizeName ''the'' = ''the''
   \<and> normalizeName ''Inc'' = ''inc''
   \<and> ofac_found (OfacSdnClient_check exampleTheStore ''the'')
   \<and> ofac_found (OfacSdnClient_check exampleTheStore ''Inc'')"
proof -
  from reachable.created [of exampleConfig] example_the_initialize
  have "reachable exampleTheStore" by (rule reachable.initialized)
  moreover have "normalizeName ''the'' = ''the''" and "normalizeName ''Inc'' = ''inc''"
    by code_simp+
  moreover have "ofac_found (OfacSdnClient_check exampleTheStore ''the'')"
    and "ofac_found (OfacSdnClient_check exampleTheStore ''Inc'')"
    by code_simp+
  ultimately show ?thesis by blast
qed

subsection \<open>The cooldown of refresh\<close>

lemma refresh_success_lastRefreshAt:
  "refresh store w source = (Inr result, store', w') \<Longrightarrow> lastRefreshAt store' = clock w'"
  by (auto simp: refresh_def Let_def split: if_splits prod.splits sum.splits)

lemma refresh_in_cooldown:
  "clock w - lastRefreshAt store < REFRESH_COOLDOWN_MS \<Longrightarrow>
     refresh store w source =
       (Inl (''Refresh cooldown: try again in ''
             @ showInt (ceilDiv (REFRESH_COOLDOWN_MS - (clock w - lastRefreshAt store)) 1000) @ ''s''),
        store, w)"
  by (simp add: refresh_def Let_def)

text \<open>
  After a \<open>refresh\<close> that has returned its result, a \<open>refresh\<close> of the store it leaves
  that starts less than 60 seconds after the first has ended is rejected, and the store
  and the world stay as they are.
\<close>

lemma refresh_cooldown_after_success:
  assumes "refresh store w source = (Inr result, store', w')"
      and "clock w2 - clock w' < REFRESH_COOLDOWN_MS"
  shows "refresh store' w2 source2 =
           (Inl (''Refresh cooldown: try again in ''
                 @ showInt (ceilDiv (REFRESH_COOLDOWN_MS - (clock w2 - clock w')) 1000) @ ''s''),
            store', w2)"
  using refresh_in_cooldown [of w2 store' source2] refresh_success_lastRefreshAt [OF assms(1)] assms(2)
  by simp

text \<open>
  \<open>lastRefreshAt\<close> is written in the last statement of \<open>refresh\<close>: a call that throws
  after its download leaves it as it was.
\<close>

lemma downloadAndParseIrs_empty_zip:
  assumes "irsRemote w = Inr (ZipDirectory [])" and "irsCsvFile w = None"
  shows "downloadAndParseIrs store w manifest =
     (Inl ''Cannot load IRS revocation data: IRS ZIP file is empty'', store,
      w\<lparr>clock := clock w + int (downloadMs w), irsZipFile := Some (ZipDirectory [])\<rparr>)"
  using assms
  by (subst downloadAndParseIrs.simps) (simp add: downloadAndParseIrs_try_def Let_def)

lemma refresh_irs_empty_zip:
  assumes "irsRemote w = Inr (ZipDirectory [])" and "irsCsvFile w = None"
    and "\<not> clock w - lastRefreshAt store < REFRESH_COOLDOWN_MS"
  shows "refresh store w (Some src_irs) =
     (Inl ''Cannot load IRS revocation data: IRS ZIP file is empty'', store,
      w\<lparr>clock := clock w + int (downloadMs w), irsZipFile := Some (ZipDirectory [])\<rparr>)"
  using assms(3)
  by (simp add: refresh_def Let_def downloadAndParseIrs_empty_zip [OF assms(1,2)])

text \<open>
  C7, on the code. The first call downloads the archive, writes it to the disk, finds no
  entry in it and, with no cache to fall back on, throws. The second call starts one
  second after the first has ended. It is not rejected with "Refresh cooldown: try again
  in Ns": it downloads and writes the archive again, and throws the same error as the
  first.
\<close>

theorem refresh_after_failed_refresh:
  "failedRefresh =
     (Inl ''Cannot load IRS revocation data: IRS ZIP file is empty'',
      newCsvDataStore exampleConfig,
      emptyZipWorld\<lparr>clock := 1700000001500, irsZipFile := Some (ZipDirectory [])\<rparr>)
   \<and> retriedRefresh =
     (Inl ''Cannot load IRS revocation data: IRS ZIP file is empty'',
      newCsvDataStore exampleConfig,
      emptyZipWorld\<lparr>clock := 1700000004000, irsZipFile := Some (ZipDirectory [])\<rparr>)"
proof -
  have first: "failedRefresh =
     (Inl ''Cannot load IRS revocation data: IRS ZIP file is empty'',
      newCsvDataStore exampleConfig,
      emptyZipWorld\<lparr>clock := 1700000001500, irsZipFile := Some (ZipDirectory [])\<rparr>)"
    unfolding failedRefresh_def
    by (subst refresh_irs_empty_zip)
       (simp_all add: emptyZipWorld_def exampleWorld_def newCsvDataStore_def REFRESH_COOLDOWN_MS_def)
  have "retriedRefresh =
     (Inl ''Cannot load IRS revocation data: IRS ZIP file is empty'',
      newCsvDataStore exampleConfig,
      emptyZipWorld\<lparr>clock := 1700000004000, irsZipFile := Some (ZipDirectory [])\<rparr>)"
    unfolding retriedRefresh_def first
    by (subst refresh_irs_empty_zip)
       (simp_all add: emptyZipWorld_def exampleWorld_def newCsvDataStore_def REFRESH_COOLDOWN_MS_def)
  with first show ?thesis by blast
qed

end
